theory Spec2Isabelle
  imports Complex_Main "HOL-Library.Log_Nat"
begin

section \<open>Data model of \<open>codex_orchestrator.py\<close>\<close>

text \<open>
  A plan step is a Python dict that is only ever read with \<open>step.get(key, default)\<close>.
  A key that is absent is \<open>None\<close> here, and \<open>dict_get\<close> supplies the default.
\<close>

record step =
  description :: "string option"
  instruction :: "string option"
  step_context :: "string option"
  critical :: "bool option"

definition dict_get :: "'a option \<Rightarrow> 'a \<Rightarrow> 'a" where
  "dict_get v d = (case v of None \<Rightarrow> d | Some x \<Rightarrow> x)"

text \<open>A reading of \<open>datetime.now()\<close>. The code stores its ISO rendering, which is
  injective, so the reading itself stands for the rendered text.\<close>

type_synonym datetime = nat

text \<open>
  The dict returned by \<open>execute_codex_command\<close>. The normal path fills \<open>stdout\<close>,
  \<open>stderr\<close> and \<open>returncode\<close>; the two exception handlers fill \<open>error\<close> instead.
  A key the dict does not have is \<open>None\<close>.
\<close>

record exec_result =
  timestamp :: datetime
  res_instruction :: string
  stdout :: "string option"
  stderr :: "string option"
  returncode :: "int option"
  error :: "string option"
  success :: bool

text \<open>An entry of \<open>results\<close> in \<open>execute_plan\<close>: keys \<open>step\<close>, \<open>description\<close>, \<open>result\<close>.\<close>

record step_result =
  step_no :: nat
  step_description :: string
  result :: exec_result

record summary =
  total_steps :: nat
  completed_steps :: nat
  success_rate :: string
  execution_time :: datetime

record report =
  summary :: summary
  steps :: "step_result list"
  logs :: "exec_result list"

record orchestrator =
  codex_path :: string
  working_dir :: string
  execution_log :: "exec_result list"
  task_plan :: "step list"
  current_task :: "string option"

section \<open>The environment: subprocesses, exceptions, effects\<close>

text \<open>
  What the operating system does with one \<open>subprocess.Popen\<close> call. Either the spawn
  itself fails with an \<open>OSError\<close> (the program is missing, permission is denied, no pipe
  can be allocated, no process can be forked), or a process runs: for some number of
  seconds (\<open>None\<close>: it never exits), having written the given standard output and
  standard error by the time \<open>communicate\<close> returns or gives up, and with the given
  exit status when it exits. The pipes are opened with \<open>text=True\<close>, so what the process
  wrote is decoded once it has exited: \<open>Garbled\<close> is a process whose output is not text
  in the encoding of the pipes, with its running time, the text of the
  \<open>UnicodeDecodeError\<close> that decoding raises, and its exit status.
\<close>

datatype os_error = ExecutableMissing | PermissionDenied | CannotAllocatePipe | CannotFork

datatype proc_event =
    PopenFails os_error string
  | Runs "nat option" string string int
  | Garbled "nat option" string int

text \<open>The exceptions the \<open>try\<close> body can raise. An \<open>OSError\<close> carries its kind and
  its text, a \<open>UnicodeDecodeError\<close> its text, which is what \<open>str(e)\<close> gives.\<close>

datatype py_exception = TimeoutExpired | OSError os_error string | UnicodeDecodeError string

definition resource_exhaustion :: "proc_event \<Rightarrow> bool" where
  "resource_exhaustion ev =
     (case ev of PopenFails e m \<Rightarrow> e = CannotAllocatePipe \<or> e = CannotFork
                 | Runs d out err rc \<Rightarrow> False
                 | Garbled d m rc \<Rightarrow> False)"

text \<open>Lines printed on the console, by kind, with the values interpolated into them.\<close>

datatype notice =
    Sending string
  | TaskCompleted
  | CodexError string
  | TimedOutNotice
  | ExecutionError string
  | PlanReceived nat
  | PlanLine nat string
  | Rule
  | StepBanner nat nat string
  | MissingInstruction
  | CriticalStop
  | ReportTitle
  | Completed nat nat
  | SuccessRate string
  | ReportFile datetime

text \<open>What a call does to the world outside the orchestrator object, in order.
  \<open>Spawn\<close> carries the argument vector, the working directory and the text written
  to standard input; \<open>Sleep\<close> is in milliseconds; \<open>WriteFile\<close> carries the clock
  reading that names the report file, and the report dumped into it.\<close>

datatype effect =
    Print notice
  | Spawn "string list" string string
  | Kill
  | Sleep nat
  | WriteFile datetime report

section \<open>Python text\<close>

text \<open>
  A Python \<open>str\<close> is modelled by the bytes of its UTF-8 encoding. \<open>len\<close>, slices and
  \<open>strip\<close> count characters, not bytes, so they go through the characters of the text:
  a first byte with the continuation bytes (\<open>0x80\<close> to \<open>0xBF\<close>) that follow it.
\<close>

definition is_continuation :: "char \<Rightarrow> bool" where
  "is_continuation c = (128 \<le> (of_char c :: nat) \<and> (of_char c :: nat) < 192)"

function characters :: "string \<Rightarrow> string list" where
  "characters [] = []"
| "characters (c # s) =
     (c # takeWhile is_continuation s) # characters (dropWhile is_continuation s)"
  by pat_completeness auto

termination characters
  by (relation "measure length") (simp_all add: length_dropWhile_le le_imp_less_Suc)

text \<open>\<open>len(s)\<close> and \<open>s[:n]\<close>.\<close>

definition py_len :: "string \<Rightarrow> nat" where
  "py_len s = length (characters s)"

definition py_slice :: "nat \<Rightarrow> string \<Rightarrow> string" where
  "py_slice n s = concat (take n (characters s))"

text \<open>\<open>s[:n] + '...' if len(s) > n else s\<close>.\<close>

definition truncated :: "nat \<Rightarrow> string \<Rightarrow> string" where
  "truncated n s = (if py_len s > n then py_slice n s @ ''...'' else s)"

text \<open>The characters that \<open>str.isspace\<close> accepts, which are those that \<open>s.strip()\<close>
  removes from both ends: the ASCII controls \<open>U+0009\<close> to \<open>U+000D\<close> and \<open>U+001C\<close>
  to \<open>U+001F\<close>, the space, \<open>U+0085\<close>, \<open>U+00A0\<close>, \<open>U+1680\<close>, \<open>U+2000\<close> to
  \<open>U+200A\<close>, \<open>U+2028\<close>, \<open>U+2029\<close>, \<open>U+202F\<close>, \<open>U+205F\<close> and \<open>U+3000\<close>.\<close>

definition whitespace :: "string list" where
  "whitespace =
     [[CHR 0x09], [CHR 0x0A], [CHR 0x0B], [CHR 0x0C], [CHR 0x0D],
      [CHR 0x1C], [CHR 0x1D], [CHR 0x1E], [CHR 0x1F], [CHR 0x20],
      [CHR 0xC2, CHR 0x85], [CHR 0xC2, CHR 0xA0], [CHR 0xE1, CHR 0x9A, CHR 0x80],
      [CHR 0xE2, CHR 0x80, CHR 0x80], [CHR 0xE2, CHR 0x80, CHR 0x81],
      [CHR 0xE2, CHR 0x80, CHR 0x82], [CHR 0xE2, CHR 0x80, CHR 0x83],
      [CHR 0xE2, CHR 0x80, CHR 0x84], [CHR 0xE2, CHR 0x80, CHR 0x85],
      [CHR 0xE2, CHR 0x80, CHR 0x86], [CHR 0xE2, CHR 0x80, CHR 0x87],
      [CHR 0xE2, CHR 0x80, CHR 0x88], [CHR 0xE2, CHR 0x80, CHR 0x89],
      [CHR 0xE2, CHR 0x80, CHR 0x8A], [CHR 0xE2, CHR 0x80, CHR 0xA8],
      [CHR 0xE2, CHR 0x80, CHR 0xA9], [CHR 0xE2, CHR 0x80, CHR 0xAF],
      [CHR 0xE2, CHR 0x81, CHR 0x9F], [CHR 0xE3, CHR 0x80, CHR 0x80]]"

definition is_space :: "string \<Rightarrow> bool" where
  "is_space c = (c \<in> set whitespace)"

definition py_strip :: "string \<Rightarrow> string" where
  "py_strip s = concat (rev (dropWhile is_space (rev (dropWhile is_space (characters s)))))"

section \<open>\<open>CodexOrchestrator.execute_codex_command\<close>\<close>

definition init_orchestrator :: "string \<Rightarrow> string \<Rightarrow> string \<Rightarrow> orchestrator" where
  "init_orchestrator home cwd wd =
     \<lparr> codex_path = home @ ''/.npm-global/bin/codex'',
       working_dir = (if wd \<noteq> [] then wd else cwd),
       execution_log = [],
       task_plan = [],
       current_task = None \<rparr>"

definition full_instruction :: "string \<Rightarrow> string \<Rightarrow> string" where
  "full_instruction instr ctx = (if ctx \<noteq> [] then ctx @ [CHR 0x0A, CHR 0x0A] @ instr else instr)"

definition cmd_args :: "orchestrator \<Rightarrow> string list" where
  "cmd_args self = [codex_path self, ''exec'', ''--dangerously-bypass-approvals-and-sandbox'',
                    ''--skip-git-repo-check'', ''--json'']"

text \<open>A spawned process: its running time, what it wrote (\<open>Inl\<close>: bytes that do not
  decode, with the text of the error; \<open>Inr\<close>: the decoded standard output and standard
  error) and its exit status.\<close>

type_synonym process = "nat option \<times> (string + string \<times> string) \<times> int"

text \<open>\<open>subprocess.Popen(...)\<close>: raises when the spawn fails, else yields the process.\<close>

definition Popen :: "proc_event \<Rightarrow> py_exception + process" where
  "Popen ev = (case ev of PopenFails e m \<Rightarrow> Inl (OSError e m)
                        | Runs d out err rc \<Rightarrow> Inr (d, Inr (out, err), rc)
                        | Garbled d m rc \<Rightarrow> Inr (d, Inl m, rc))"

text \<open>\<open>process.communicate(input=..., timeout=t)\<close>: raises \<open>TimeoutExpired\<close> when the
  process has not terminated after \<open>t\<close> seconds. When it has, the bytes read from the
  two pipes are decoded, which raises \<open>UnicodeDecodeError\<close> when they are not text.\<close>

definition communicate :: "process \<Rightarrow> nat \<Rightarrow> py_exception + (string \<times> string \<times> int)" where
  "communicate p t = (case p of (d, written, rc) \<Rightarrow>
     (case d of None \<Rightarrow> Inl TimeoutExpired
              | Some s \<Rightarrow>
                  if s \<le> t then
                    (case written of Inl m \<Rightarrow> Inl (UnicodeDecodeError m)
                                   | Inr (out, err) \<Rightarrow> Inr (out, err, rc))
                  else Inl TimeoutExpired))"

text \<open>The two \<open>except\<close> clauses, in the order of the source: the class of the exception
  selects the dict that is returned, and \<open>except Exception\<close> takes every exception that
  is not a \<open>TimeoutExpired\<close>. Neither clause touches \<open>execution_log\<close>.\<close>

fun handle_exception :: "datetime \<Rightarrow> string \<Rightarrow> py_exception \<Rightarrow> exec_result \<times> effect list" where
  "handle_exception ts instr TimeoutExpired =
     (\<lparr> timestamp = ts, res_instruction = instr, stdout = None, stderr = None,
        returncode = None, error = Some ''Timeout after 5 minutes'', success = False \<rparr>,
      [Print TimedOutNotice, Kill])"
| "handle_exception ts instr (OSError e m) =
     (\<lparr> timestamp = ts, res_instruction = instr, stdout = None, stderr = None,
        returncode = None, error = Some m, success = False \<rparr>,
      [Print (ExecutionError m)])"
| "handle_exception ts instr (UnicodeDecodeError m) =
     (\<lparr> timestamp = ts, res_instruction = instr, stdout = None, stderr = None,
        returncode = None, error = Some m, success = False \<rparr>,
      [Print (ExecutionError m)])"

text \<open>
  The whole method. \<open>now\<close> is the clock reading taken on entry and \<open>ev\<close> is how the
  operating system answers the spawn. The result is a sum so that an exception leaving
  the method would be \<open>Inl\<close>.
\<close>

definition execute_codex_command ::
  "orchestrator \<Rightarrow> datetime \<Rightarrow> proc_event \<Rightarrow> string \<Rightarrow> string \<Rightarrow>
     py_exception + (exec_result \<times> orchestrator \<times> effect list)" where
  "execute_codex_command self now ev instr ctx =
     (let ts = now;
          payload = full_instruction instr ctx;
          announce = [Print (Sending (py_slice 100 instr))]
      in case Popen ev of
           Inl e \<Rightarrow>
             (case handle_exception ts instr e of (res, fx) \<Rightarrow> Inr (res, self, announce @ fx))
         | Inr process \<Rightarrow>
             (let spawned = announce @ [Spawn (cmd_args self) (working_dir self) payload]
              in case communicate process 300 of
                   Inl e \<Rightarrow>
                     (case handle_exception ts instr e of (res, fx) \<Rightarrow> Inr (res, self, spawned @ fx))
                 | Inr (out, err, rc) \<Rightarrow>
                     (let res = \<lparr> timestamp = ts, res_instruction = instr, stdout = Some out,
                                  stderr = Some err, returncode = Some rc, error = None,
                                  success = (rc = 0) \<rparr>;
                          self' = self\<lparr> execution_log := execution_log self @ [res] \<rparr>
                      in Inr (res, self',
                              spawned @ [Print (if success res then TaskCompleted
                                                else CodexError (py_slice 200 err))]))))"

section \<open>Python's float arithmetic in \<open>generate_report\<close>\<close>

text \<open>
  The success rate is \<open>f"{(completed_steps/total_steps)*100:.1f}%"\<close>: a true division
  of two integers, a float multiplication and a fixed-point rendering. Each of the
  three is correctly rounded (to the nearest binary64 value, or to the nearest tenth, with
  ties to even), so each is modelled on exact integers. A nonnegative binary64 value is a
  pair \<open>(m, e)\<close> standing for \<open>m * 2 ^ e\<close>.
\<close>

type_synonym double = "int \<times> int"

text \<open>The integer nearest to \<open>a / b\<close> (for \<open>b > 0\<close>), ties to the even one.\<close>

definition round_half_even :: "int \<Rightarrow> int \<Rightarrow> int" where
  "round_half_even a b =
     (let q = a div b; r = a mod b
      in if 2 * r < b then q else if b < 2 * r then q + 1 else if even q then q else q + 1)"

text \<open>\<open>\<lfloor>log\<^sub>2 (a / b)\<rfloor>\<close> for positive \<open>a\<close> and \<open>b\<close>, from their bit lengths.\<close>

definition floor_log2 :: "int \<Rightarrow> int \<Rightarrow> int" where
  "floor_log2 a b =
     (let L = bitlen a - bitlen b
      in if (if 0 \<le> L then b * 2 ^ nat L \<le> a else b \<le> a * 2 ^ nat (- L)) then L else L - 1)"

text \<open>The binary64 value nearest to \<open>a / b\<close>: 53 significant bits, exponent no lower
  than that of the subnormal numbers. (Overflow is out of reach: it needs a quotient
  above \<open>2 ^ 1023\<close>.)\<close>

definition round_to_double :: "int \<Rightarrow> int \<Rightarrow> double" where
  "round_to_double a b =
     (if a = 0 then (0, 0)
      else let e = max (floor_log2 a b - 52) (- 1074)
           in (if 0 \<le> e then round_half_even a (b * 2 ^ nat e)
               else round_half_even (a * 2 ^ nat (- e)) b, e))"

definition truediv :: "nat \<Rightarrow> nat \<Rightarrow> double" where
  "truediv c t = round_to_double (int c) (int t)"

definition float_mult_int :: "double \<Rightarrow> int \<Rightarrow> double" where
  "float_mult_int x k = (case x of (m, e) \<Rightarrow>
     if 0 \<le> e then round_to_double (m * k * 2 ^ nat e) 1
     else round_to_double (m * k) (2 ^ nat (- e)))"

definition digit_char :: "nat \<Rightarrow> char" where
  "digit_char d = ''0123456789'' ! d"

fun string_of_nat :: "nat \<Rightarrow> string" where
  "string_of_nat n =
     (if n < 10 then [digit_char n] else string_of_nat (n div 10) @ [digit_char (n mod 10)])"

text \<open>The number of tenths that \<open>format(x, ".1f")\<close> prints.\<close>

definition tenths :: "double \<Rightarrow> nat" where
  "tenths x = (case x of (m, e) \<Rightarrow>
     nat (if 0 \<le> e then 10 * m * 2 ^ nat e else round_half_even (10 * m) (2 ^ nat (- e))))"

definition format_1f :: "double \<Rightarrow> string" where
  "format_1f x = string_of_nat (tenths x div 10) @ ''.'' @ [digit_char (tenths x mod 10)]"

text \<open>The real number that a pair \<open>(m, e)\<close> stands for.\<close>

definition double_value :: "double \<Rightarrow> real" where
  "double_value x = real_of_int (fst x) * 2 powi (snd x)"

section \<open>\<open>set_task_plan\<close>, \<open>execute_plan\<close>, \<open>generate_report\<close>\<close>

text \<open>The default description of a plan line, a Turkish word of four letters, as its five
  bytes in UTF-8.\<close>

definition Adim :: string where
  "Adim = [CHR ''A'', CHR ''d'', CHR 0xC4, CHR 0xB1, CHR ''m'']"

definition set_task_plan :: "orchestrator \<Rightarrow> step list \<Rightarrow> orchestrator \<times> effect list" where
  "set_task_plan self plan =
     (self\<lparr> task_plan := plan \<rparr>,
      Print (PlanReceived (length plan)) #
      map (\<lambda>(i, st). Print (PlanLine i (dict_get (description st) Adim))) (enumerate 1 plan))"

text \<open>
  \<open>generate_report\<close> reads the clock twice: for \<open>execution_time\<close> and for the name of
  the report file. It reads \<open>task_plan\<close> and \<open>execution_log\<close> from the object, dumps the
  report into the file and prints four lines between two rules.
\<close>

text \<open>The \<open>success_rate\<close> entry of the summary, from the two counts.\<close>

definition rate_text :: "nat \<Rightarrow> nat \<Rightarrow> string" where
  "rate_text c t = (if t > 0 then format_1f (float_mult_int (truediv c t) 100) @ ''%'' else ''0%'')"

definition generate_report ::
  "orchestrator \<Rightarrow> datetime \<Rightarrow> datetime \<Rightarrow> step_result list \<Rightarrow> report \<times> effect list" where
  "generate_report self now_summary now_file results =
     (let total = length (task_plan self);
          completed = sum_list [1. r \<leftarrow> results, success (result r)];
          rate = rate_text completed total;
          rep = \<lparr> summary = \<lparr> total_steps = total, completed_steps = completed,
                               success_rate = rate, execution_time = now_summary \<rparr>,
                  steps = results,
                  logs = execution_log self \<rparr>
      in (rep, [WriteFile now_file rep, Print Rule, Print ReportTitle, Print Rule,
                Print (Completed completed total), Print (SuccessRate rate),
                Print (ReportFile now_file)]))"

text \<open>
  What the world supplies to one run of a plan: for the step numbered \<open>i\<close> the clock
  reading on entry to \<open>execute_codex_command\<close> and the behaviour of the subprocess
  spawned there, and the two clock readings of \<open>generate_report\<close>.
\<close>

record environment =
  step_clock :: "nat \<Rightarrow> datetime"
  step_process :: "nat \<Rightarrow> proc_event"
  report_clock :: datetime
  file_clock :: datetime

text \<open>
  The body of the \<open>for\<close> loop of \<open>execute_plan\<close>, over what is left of
  \<open>enumerate(self.task_plan, 1)\<close>. \<open>results\<close> and \<open>fx\<close> are the list built so far
  and the effects so far. \<open>continue\<close> is the first branch, \<open>break\<close> the one
  that returns without a recursive call.
\<close>

fun execute_steps ::
  "environment \<Rightarrow> (nat \<times> step) list \<Rightarrow> orchestrator \<Rightarrow> step_result list \<Rightarrow> effect list \<Rightarrow>
     py_exception + (step_result list \<times> orchestrator \<times> effect list)" where
  "execute_steps env [] self results fx = Inr (results, self, fx)"
| "execute_steps env ((i, st) # rest) self results fx =
     (let banner = [Print Rule,
                    Print (StepBanner i (length (task_plan self)) (dict_get (description st) [])),
                    Print Rule];
          instr = dict_get (instruction st) [];
          ctx = dict_get (step_context st) []
      in if instr = [] then
           execute_steps env rest self results (fx @ banner @ [Print MissingInstruction])
         else
           (case execute_codex_command self (step_clock env i) (step_process env i) instr ctx of
              Inl e \<Rightarrow> Inl e
            | Inr (res, self', cfx) \<Rightarrow>
                (let results' = results @ [\<lparr> step_no = i,
                                              step_description = dict_get (description st) [],
                                              result = res \<rparr>];
                     fx' = fx @ banner @ cfx
                 in if \<not> success res \<and> dict_get (critical st) True then
                      Inr (results', self', fx' @ [Print CriticalStop])
                    else
                      execute_steps env rest self' results'
                        (fx' @ (if i < length (task_plan self') then [Sleep 2000] else [])))))"

definition execute_plan ::
  "orchestrator \<Rightarrow> environment \<Rightarrow> py_exception + (report \<times> orchestrator \<times> effect list)" where
  "execute_plan self env =
     (case execute_steps env (enumerate 1 (task_plan self)) self [] [] of
        Inl e \<Rightarrow> Inl e
      | Inr (results, self', fx) \<Rightarrow>
          (case generate_report self' (report_clock env) (file_clock env) results of
             (rep, rfx) \<Rightarrow> Inr (rep, self', fx @ rfx)))"

section \<open>The monitors: \<open>monitor.py\<close> and \<open>monitor_v2.py\<close>\<close>

text \<open>
  Both modules keep one global dict \<open>current_execution\<close>, push messages to the connected
  clients over a socket, and replace three methods of an orchestrator by wrappers. The
  model keeps the dict, the messages pushed (in order) and the clock: the \<open>n\<close>-th reading
  of \<open>datetime.now()\<close> taken by the monitor is \<open>clock n\<close>. Lines the monitors print on
  the console are left out. Pictographs in the log texts are their UTF-8 bytes.
\<close>

datatype detail = DStr string | DBool bool | DInt int

record log_entry =
  entry_timestamp :: datetime
  entry_level :: string
  entry_message :: string
  entry_details :: "(string \<times> detail) list option"

record current_execution =
  ce_task :: "string option"
  ce_plan :: "step list"
  ce_current_step :: nat
  ce_status :: string
  ce_logs :: "log_entry list"

record current_execution_v2 = current_execution +
  ce_total_steps :: nat
  ce_start_time :: "datetime option"
  ce_end_time :: "datetime option"

text \<open>Messages of \<open>monitor.py\<close>, by event name, with their data. \<open>EmitStatus\<close> goes to
  the one client that has just connected.\<close>

datatype emission =
    EmitLog log_entry
  | EmitPlanSet "step list"
  | EmitExecuting nat string
  | EmitExecuted nat bool
  | EmitExecutionStarted
  | EmitStepStarted nat string
  | EmitExecutionCompleted report
  | EmitStatus string current_execution

text \<open>Messages of \<open>monitor_v2.py\<close>, by their \<open>type\<close>, with their data.\<close>

datatype emission_v2 =
    MsgLog log_entry
  | MsgPlanSet "step list" nat
  | MsgClaudeToCodex string bool datetime
  | MsgCodexResponse bool string datetime
  | MsgExecutionStarted nat datetime
  | MsgStepStarted nat nat string datetime
  | MsgStepCompleted nat bool datetime
  | MsgExecutionCompleted string nat nat datetime
  | MsgStateUpdate string current_execution_v2
  | MsgConnectionStatus string bool string

record monitor =
  ce :: current_execution
  outbox :: "emission list"
  clock :: "nat \<Rightarrow> datetime"
  reads :: nat

text \<open>\<open>stopwatch n\<close> is the text \<open>f"{execution_time:.2f}s"\<close> of the wall time measured
  around a command when the monitor has read the clock \<open>n\<close> times.\<close>

record monitor_v2 =
  ce2 :: current_execution_v2
  connected_clients :: "string set"
  outbox2 :: "emission_v2 list"
  clock2 :: "nat \<Rightarrow> datetime"
  stopwatch :: "nat \<Rightarrow> string"
  reads2 :: nat

definition robot :: string where "robot = [CHR 0xF0, CHR 0x9F, CHR 0xA4, CHR 0x96]"
definition arrow :: string where "arrow = [CHR 0xE2, CHR 0x86, CHR 0x92]"
definition check_mark :: string where "check_mark = [CHR 0xE2, CHR 0x9C, CHR 0x85]"
definition cross_mark :: string where "cross_mark = [CHR 0xE2, CHR 0x9D, CHR 0x8C]"
definition clipboard :: string where "clipboard = [CHR 0xF0, CHR 0x9F, CHR 0x93, CHR 0x8B]"
definition rocket :: string where "rocket = [CHR 0xF0, CHR 0x9F, CHR 0x9A, CHR 0x80]"
definition round_pin :: string where "round_pin = [CHR 0xF0, CHR 0x9F, CHR 0x93, CHR 0x8D]"
definition stop_sign :: string where "stop_sign = [CHR 0xF0, CHR 0x9F, CHR 0x9B, CHR 0x91]"
definition bar_chart :: string where "bar_chart = [CHR 0xF0, CHR 0x9F, CHR 0x93, CHR 0x8A]"

text \<open>\<open>xs[-n:]\<close> for a positive \<open>n\<close>.\<close>

definition last_n :: "nat \<Rightarrow> 'a list \<Rightarrow> 'a list" where
  "last_n n xs = drop (length xs - n) xs"

subsection \<open>\<open>monitor.py\<close>\<close>

definition broadcast_update :: "monitor \<Rightarrow> emission \<Rightarrow> monitor" where
  "broadcast_update m e = m\<lparr> outbox := outbox m @ [e] \<rparr>"

definition log_message ::
  "monitor \<Rightarrow> string \<Rightarrow> string \<Rightarrow> (string \<times> detail) list option \<Rightarrow> monitor" where
  "log_message m lvl msg det =
     (let log_entry = \<lparr> entry_timestamp = clock m (reads m), entry_level = lvl,
                        entry_message = msg, entry_details = det \<rparr>;
          m1 = m\<lparr> reads := Suc (reads m),
                  ce := (ce m)\<lparr> ce_logs := ce_logs (ce m) @ [log_entry] \<rparr> \<rparr>;
          m2 = (if length (ce_logs (ce m1)) > 100
                then m1\<lparr> ce := (ce m1)\<lparr> ce_logs := last_n 100 (ce_logs (ce m1)) \<rparr> \<rparr>
                else m1)
      in broadcast_update m2 (EmitLog log_entry))"


definition monitored_set_plan ::
  "monitor \<Rightarrow> orchestrator \<Rightarrow> step list \<Rightarrow> monitor \<times> orchestrator \<times> effect list" where
  "monitored_set_plan m self pl =
     (let m1 = m\<lparr> ce := (ce m)\<lparr> ce_plan := pl, ce_status := ''planning'',
                                  ce_current_step := 0 \<rparr> \<rparr>;
          m2 = log_message m1 ''info''
                 (clipboard @ '' Plan received: '' @ string_of_nat (length pl) @ '' steps'') None;
          m3 = foldl (\<lambda>mm (i, st). log_message mm ''info''
                        (''  '' @ string_of_nat i @ ''. '' @ dict_get (description st) ''Step'') None)
                 m2 (enumerate 1 pl);
          m4 = broadcast_update m3 (EmitPlanSet pl)
      in (m4, set_task_plan self pl))"

text \<open>\<open>monitored_execute_command\<close>: what is logged and sent before the original
  method is called, and after it has returned.\<close>

definition announce_command :: "monitor \<Rightarrow> string \<Rightarrow> string \<Rightarrow> monitor" where
  "announce_command m instr ctx =
     (let m1 = m\<lparr> ce := (ce m)\<lparr> ce_status := ''executing'' \<rparr> \<rparr>;
          m2 = log_message m1 ''info'' (robot @ '' Claude '' @ arrow @ '' Codex'')
                 (Some [(''instruction'', DStr (truncated 200 instr)),
                        (''has_context'', DBool (ctx \<noteq> []))])
      in broadcast_update m2 (EmitExecuting (ce_current_step (ce m2)) (py_slice 100 instr)))"

definition conclude_command :: "monitor \<Rightarrow> exec_result \<Rightarrow> monitor" where
  "conclude_command m res =
     (let m4 = (if success res then
                  log_message m ''success'' (check_mark @ '' Codex completed task'')
                    (Some [(''stdout_preview'',
                              DStr (py_strip (py_slice 200 (dict_get (stdout res) [])))),
                           (''returncode'', DInt (dict_get (returncode res) 0))])
                else
                  log_message m ''error'' (cross_mark @ '' Codex execution failed'')
                    (Some [(''error'', DStr (dict_get (error res) ''Unknown error'')),
                           (''stderr'',
                              DStr (py_strip (py_slice 200 (dict_get (stderr res) []))))]))
      in broadcast_update m4 (EmitExecuted (ce_current_step (ce m4)) (success res)))"

definition monitored_execute_command ::
  "monitor \<Rightarrow> orchestrator \<Rightarrow> datetime \<Rightarrow> proc_event \<Rightarrow> string \<Rightarrow> string \<Rightarrow>
     py_exception + (exec_result \<times> orchestrator \<times> effect list \<times> monitor)" where
  "monitored_execute_command m self now ev instr ctx =
     (case execute_codex_command self now ev instr ctx of
        Inl e \<Rightarrow> Inl e
      | Inr (res, self', fx) \<Rightarrow>
          Inr (res, self', fx, conclude_command (announce_command m instr ctx) res))"

text \<open>One pass through the body of the loop of \<open>monitored_execute_plan\<close>: what is
  logged and sent before the command, then the pass itself, whose flag tells whether it
  ended in \<open>break\<close>. The body calls \<open>execute_codex_command\<close> through the
  orchestrator, where the constructor has put \<open>monitored_execute_command\<close>, and has no
  test of the instruction.\<close>

definition announce_step :: "monitor \<Rightarrow> orchestrator \<Rightarrow> nat \<Rightarrow> step \<Rightarrow> monitor" where
  "announce_step m self i st =
     (let m1 = m\<lparr> ce := (ce m)\<lparr> ce_current_step := i \<rparr> \<rparr>;
          m2 = log_message m1 ''info''
                 (round_pin @ '' Step '' @ string_of_nat i @ ''/'' @
                  string_of_nat (length (task_plan self)) @ '': '' @ dict_get (description st) [])
                 None
      in broadcast_update m2 (EmitStepStarted i (dict_get (description st) [])))"

definition monitored_step ::
  "environment \<Rightarrow> nat \<times> step \<Rightarrow> monitor \<Rightarrow> orchestrator \<Rightarrow> step_result list \<Rightarrow> effect list \<Rightarrow>
     py_exception + (bool \<times> step_result list \<times> orchestrator \<times> effect list \<times> monitor)" where
  "monitored_step env x m self results fx = (case x of (i, st) \<Rightarrow>
     (case monitored_execute_command (announce_step m self i st) self
             (step_clock env i) (step_process env i)
             (dict_get (instruction st) []) (dict_get (step_context st) []) of
        Inl e \<Rightarrow> Inl e
      | Inr (res, self', cfx, m4) \<Rightarrow>
          if \<not> success res \<and> dict_get (critical st) True then
            Inr (True,
                 results @ [\<lparr> step_no = i, step_description = dict_get (description st) [],
                               result = res \<rparr>],
                 self', fx @ cfx,
                 log_message m4 ''error''
                   (stop_sign @ '' Critical step failed, stopping execution'') None)
          else
            Inr (False,
                 results @ [\<lparr> step_no = i, step_description = dict_get (description st) [],
                               result = res \<rparr>],
                 self', fx @ cfx @ [Sleep 1000], m4)))"

fun monitored_steps ::
  "environment \<Rightarrow> (nat \<times> step) list \<Rightarrow> monitor \<Rightarrow> orchestrator \<Rightarrow> step_result list \<Rightarrow>
     effect list \<Rightarrow> py_exception + (step_result list \<times> orchestrator \<times> effect list \<times> monitor)" where
  "monitored_steps env [] m self results fx = Inr (results, self, fx, m)"
| "monitored_steps env (x # rest) m self results fx =
     (case monitored_step env x m self results fx of
        Inl e \<Rightarrow> Inl e
      | Inr (stop, results', self', fx', m') \<Rightarrow>
          if stop then Inr (results', self', fx', m')
          else monitored_steps env rest m' self' results' fx')"

definition announce_plan :: "monitor \<Rightarrow> monitor" where
  "announce_plan m =
     (let m1 = m\<lparr> ce := (ce m)\<lparr> ce_status := ''running'', ce_logs := [] \<rparr> \<rparr>;
          m2 = log_message m1 ''info'' (rocket @ '' Starting plan execution'') None
      in broadcast_update m2 EmitExecutionStarted)"

definition conclude_plan :: "monitor \<Rightarrow> report \<Rightarrow> monitor" where
  "conclude_plan m rep =
     (let m5 = m\<lparr> ce := (ce m)\<lparr> ce_status := ''completed'' \<rparr> \<rparr>;
          m6 = log_message m5 ''success''
                 (bar_chart @ '' Execution completed: '' @ success_rate (summary rep)) None
      in broadcast_update m6 (EmitExecutionCompleted rep))"

definition monitored_execute_plan ::
  "monitor \<Rightarrow> orchestrator \<Rightarrow> environment \<Rightarrow>
     py_exception + (report \<times> orchestrator \<times> effect list \<times> monitor)" where
  "monitored_execute_plan m self env =
     (case monitored_steps env (enumerate 1 (task_plan self)) (announce_plan m) self [] [] of
        Inl e \<Rightarrow> Inl e
      | Inr (results, self', fx, m4) \<Rightarrow>
          (case generate_report self' (report_clock env) (file_clock env) results of
             (rep, rfx) \<Rightarrow> Inr (rep, self', fx @ rfx, conclude_plan m4 rep)))"

subsection \<open>\<open>monitor_v2.py\<close>\<close>

definition broadcast_message :: "monitor_v2 \<Rightarrow> emission_v2 \<Rightarrow> monitor_v2" where
  "broadcast_message m e =
     (if connected_clients m = {} then m else m\<lparr> outbox2 := outbox2 m @ [e] \<rparr>)"

definition log_and_broadcast ::
  "monitor_v2 \<Rightarrow> string \<Rightarrow> string \<Rightarrow> (string \<times> detail) list option \<Rightarrow> monitor_v2" where
  "log_and_broadcast m lvl msg det =
     (let log_entry = \<lparr> entry_timestamp = clock2 m (reads2 m), entry_level = lvl,
                        entry_message = msg, entry_details = Some (dict_get det []) \<rparr>;
          m1 = m\<lparr> reads2 := Suc (reads2 m),
                  ce2 := (ce2 m)\<lparr> ce_logs := ce_logs (ce2 m) @ [log_entry] \<rparr> \<rparr>;
          m2 = (if length (ce_logs (ce2 m1)) > 100
                then m1\<lparr> ce2 := (ce2 m1)\<lparr> ce_logs := last_n 100 (ce_logs (ce2 m1)) \<rparr> \<rparr>
                else m1)
      in broadcast_message m2 (MsgLog log_entry))"


definition monitored_set_plan_v2 ::
  "monitor_v2 \<Rightarrow> orchestrator \<Rightarrow> step list \<Rightarrow> monitor_v2 \<times> orchestrator \<times> effect list" where
  "monitored_set_plan_v2 m self pl =
     (let m1 = m\<lparr> reads2 := Suc (reads2 m),
                  ce2 := (ce2 m)\<lparr> ce_plan := pl, ce_total_steps := length pl,
                                    ce_current_step := 0, ce_status := ''planning'',
                                    ce_start_time := Some (clock2 m (reads2 m)) \<rparr> \<rparr>;
          m2 = broadcast_message m1 (MsgPlanSet pl (length pl));
          m3 = log_and_broadcast m2 ''info''
                 (clipboard @ '' Plan received: '' @ string_of_nat (length pl) @ '' steps'') None;
          m4 = foldl (\<lambda>mm (i, st). log_and_broadcast mm ''info''
                        (''  '' @ string_of_nat i @ ''. '' @ dict_get (description st) ''Step'') None)
                 m3 (enumerate 1 pl)
      in (m4, set_task_plan self pl))"

definition announce_command_v2 :: "monitor_v2 \<Rightarrow> string \<Rightarrow> string \<Rightarrow> monitor_v2" where
  "announce_command_v2 m instr ctx =
     (let m1 = m\<lparr> ce2 := (ce2 m)\<lparr> ce_status := ''executing'' \<rparr> \<rparr>;
          m2 = broadcast_message (m1\<lparr> reads2 := Suc (reads2 m1) \<rparr>)
                 (MsgClaudeToCodex (truncated 200 instr) (ctx \<noteq> []) (clock2 m1 (reads2 m1)))
      in log_and_broadcast m2 ''info'' (robot @ '' Claude '' @ arrow @ '' Codex'')
           (Some [(''instruction_preview'', DStr (truncated 100 instr))]))"

definition conclude_command_v2 :: "monitor_v2 \<Rightarrow> exec_result \<Rightarrow> monitor_v2" where
  "conclude_command_v2 m res =
     (let execution_time = stopwatch m (reads2 m);
          m4 = broadcast_message (m\<lparr> reads2 := Suc (reads2 m) \<rparr>)
                 (MsgCodexResponse (success res) execution_time (clock2 m (reads2 m)))
      in if success res then
           log_and_broadcast m4 ''success'' (check_mark @ '' Codex completed task'')
             (Some [(''execution_time'', DStr execution_time)])
         else
           log_and_broadcast m4 ''error'' (cross_mark @ '' Codex execution failed'')
             (Some [(''error'', DStr (py_slice 200 (dict_get (error res) ''Unknown error'')))]))"

definition monitored_execute_command_v2 ::
  "monitor_v2 \<Rightarrow> orchestrator \<Rightarrow> datetime \<Rightarrow> proc_event \<Rightarrow> string \<Rightarrow> string \<Rightarrow>
     py_exception + (exec_result \<times> orchestrator \<times> effect list \<times> monitor_v2)" where
  "monitored_execute_command_v2 m self now ev instr ctx =
     (case execute_codex_command self now ev instr ctx of
        Inl e \<Rightarrow> Inl e
      | Inr (res, self', fx) \<Rightarrow>
          Inr (res, self', fx, conclude_command_v2 (announce_command_v2 m instr ctx) res))"

definition announce_step_v2 :: "monitor_v2 \<Rightarrow> orchestrator \<Rightarrow> nat \<Rightarrow> step \<Rightarrow> monitor_v2" where
  "announce_step_v2 m self i st =
     (let m1 = m\<lparr> ce2 := (ce2 m)\<lparr> ce_current_step := i \<rparr> \<rparr>;
          m2 = broadcast_message (m1\<lparr> reads2 := Suc (reads2 m1) \<rparr>)
                 (MsgStepStarted i (length (task_plan self)) (dict_get (description st) [])
                    (clock2 m1 (reads2 m1)))
      in log_and_broadcast m2 ''info''
           (round_pin @ '' Step '' @ string_of_nat i @ ''/'' @
            string_of_nat (length (task_plan self)) @ '': '' @ dict_get (description st) [])
           None)"

definition conclude_step_v2 :: "monitor_v2 \<Rightarrow> nat \<Rightarrow> exec_result \<Rightarrow> monitor_v2" where
  "conclude_step_v2 m i res =
     broadcast_message (m\<lparr> reads2 := Suc (reads2 m) \<rparr>)
       (MsgStepCompleted i (success res) (clock2 m (reads2 m)))"

definition monitored_step_v2 ::
  "environment \<Rightarrow> nat \<times> step \<Rightarrow> monitor_v2 \<Rightarrow> orchestrator \<Rightarrow> step_result list \<Rightarrow>
     effect list \<Rightarrow>
     py_exception + (bool \<times> step_result list \<times> orchestrator \<times> effect list \<times> monitor_v2)" where
  "monitored_step_v2 env x m self results fx = (case x of (i, st) \<Rightarrow>
     (case monitored_execute_command_v2 (announce_step_v2 m self i st) self
             (step_clock env i) (step_process env i)
             (dict_get (instruction st) []) (dict_get (step_context st) []) of
        Inl e \<Rightarrow> Inl e
      | Inr (res, self', cfx, m4) \<Rightarrow>
          if \<not> success res \<and> dict_get (critical st) True then
            Inr (True,
                 results @ [\<lparr> step_no = i, step_description = dict_get (description st) [],
                               result = res \<rparr>],
                 self', fx @ cfx,
                 log_and_broadcast (conclude_step_v2 m4 i res) ''error''
                   (stop_sign @ '' Critical step failed, stopping execution'') None)
          else
            Inr (False,
                 results @ [\<lparr> step_no = i, step_description = dict_get (description st) [],
                               result = res \<rparr>],
                 self', fx @ cfx @ [Sleep 500], conclude_step_v2 m4 i res)))"

fun monitored_steps_v2 ::
  "environment \<Rightarrow> (nat \<times> step) list \<Rightarrow> monitor_v2 \<Rightarrow> orchestrator \<Rightarrow> step_result list \<Rightarrow>
     effect list \<Rightarrow>
     py_exception + (step_result list \<times> orchestrator \<times> effect list \<times> monitor_v2)" where
  "monitored_steps_v2 env [] m self results fx = Inr (results, self, fx, m)"
| "monitored_steps_v2 env (x # rest) m self results fx =
     (case monitored_step_v2 env x m self results fx of
        Inl e \<Rightarrow> Inl e
      | Inr (stop, results', self', fx', m') \<Rightarrow>
          if stop then Inr (results', self', fx', m')
          else monitored_steps_v2 env rest m' self' results' fx')"

definition announce_plan_v2 :: "monitor_v2 \<Rightarrow> orchestrator \<Rightarrow> monitor_v2" where
  "announce_plan_v2 m self =
     (let m1 = m\<lparr> reads2 := Suc (reads2 m),
                  ce2 := (ce2 m)\<lparr> ce_status := ''running'',
                                    ce_start_time := Some (clock2 m (reads2 m)) \<rparr> \<rparr>;
          m2 = broadcast_message (m1\<lparr> reads2 := Suc (reads2 m1) \<rparr>)
                 (MsgExecutionStarted (length (task_plan self)) (clock2 m1 (reads2 m1)))
      in log_and_broadcast m2 ''info'' (rocket @ '' Starting plan execution'') None)"

definition conclude_plan_v2 :: "monitor_v2 \<Rightarrow> report \<Rightarrow> monitor_v2" where
  "conclude_plan_v2 m rep =
     (let m5 = m\<lparr> reads2 := Suc (reads2 m),
                  ce2 := (ce2 m)\<lparr> ce_status := ''completed'',
                                    ce_end_time := Some (clock2 m (reads2 m)) \<rparr> \<rparr>;
          m6 = broadcast_message (m5\<lparr> reads2 := Suc (reads2 m5) \<rparr>)
                 (MsgExecutionCompleted (success_rate (summary rep))
                    (completed_steps (summary rep)) (total_steps (summary rep))
                    (clock2 m5 (reads2 m5)))
      in log_and_broadcast m6 ''success''
           (bar_chart @ '' Execution completed: '' @ success_rate (summary rep)) None)"

definition monitored_execute_plan_v2 ::
  "monitor_v2 \<Rightarrow> orchestrator \<Rightarrow> environment \<Rightarrow>
     py_exception + (report \<times> orchestrator \<times> effect list \<times> monitor_v2)" where
  "monitored_execute_plan_v2 m self env =
     (case monitored_steps_v2 env (enumerate 1 (task_plan self)) (announce_plan_v2 m self) self [] [] of
        Inl e \<Rightarrow> Inl e
      | Inr (results, self', fx, m4) \<Rightarrow>
          (case generate_report self' (report_clock env) (file_clock env) results of
             (rep, rfx) \<Rightarrow> Inr (rep, self', fx @ rfx, conclude_plan_v2 m4 rep)))"





text \<open>The monitors as their modules leave them after import, with a given clock.\<close>

definition idle_monitor :: "(nat \<Rightarrow> datetime) \<Rightarrow> monitor" where
  "idle_monitor c = \<lparr> ce = \<lparr> ce_task = None, ce_plan = [], ce_current_step = 0,
                              ce_status = ''idle'', ce_logs = [] \<rparr>,
                       outbox = [], clock = c, reads = 0 \<rparr>"

definition idle_monitor_v2 :: "(nat \<Rightarrow> datetime) \<Rightarrow> (nat \<Rightarrow> string) \<Rightarrow> monitor_v2" where
  "idle_monitor_v2 c w = \<lparr> ce2 = \<lparr> ce_task = None, ce_plan = [], ce_current_step = 0,
                                    ce_status = ''idle'', ce_logs = [], ce_total_steps = 0,
                                    ce_start_time = None, ce_end_time = None \<rparr>,
                            connected_clients = {}, outbox2 = [], clock2 = c, stopwatch = w,
                            reads2 = 0 \<rparr>"

section \<open>Outcomes of a subprocess, read off the \<open>try\<close> body\<close>

text \<open>\<open>terminates\<close>: the \<open>try\<close> body runs to its end (the process was spawned, exited
  within the 300 seconds and wrote text). \<open>exits_ok\<close>: it did so with exit status zero.\<close>

definition terminates :: "proc_event \<Rightarrow> bool" where
  "terminates ev = (case Popen ev of Inl e \<Rightarrow> False
                    | Inr p \<Rightarrow> (case communicate p 300 of Inl e \<Rightarrow> False | Inr r \<Rightarrow> True))"

definition exits_ok :: "proc_event \<Rightarrow> bool" where
  "exits_ok ev = (case Popen ev of Inl e \<Rightarrow> False
                  | Inr p \<Rightarrow> (case communicate p 300 of Inl e \<Rightarrow> False
                                                         | Inr (out, err, rc) \<Rightarrow> rc = 0))"

section \<open>Which steps a run attempts\<close>

text \<open>
  Words for the theorems about \<open>execute_plan\<close>, over the numbered steps
  \<open>enumerate(self.task_plan, 1)\<close>. A step is \<open>runnable\<close> when its instruction is
  not empty. A numbered step \<open>halts\<close> the run when its command does not succeed and
  \<open>step.get('critical', True)\<close> holds. The \<open>attempted\<close> steps are the runnable ones up
  to and including the first that halts.
\<close>

definition runnable :: "(nat \<times> step) list \<Rightarrow> (nat \<times> step) list" where
  "runnable ist = filter (\<lambda>(i, st). dict_get (instruction st) [] \<noteq> []) ist"

definition halts :: "environment \<Rightarrow> nat \<times> step \<Rightarrow> bool" where
  "halts env = (\<lambda>(i, st). \<not> exits_ok (step_process env i) \<and> dict_get (critical st) True)"

definition attempted :: "environment \<Rightarrow> (nat \<times> step) list \<Rightarrow> (nat \<times> step) list" where
  "attempted env ist =
     takeWhile (\<lambda>x. \<not> halts env x) (runnable ist) @
     take 1 (dropWhile (\<lambda>x. \<not> halts env x) (runnable ist))"

text \<open>
  What a run did, read off its effects. Every call of \<open>execute_codex_command\<close> prints
  one \<open>Sending\<close> notice, with the first 100 characters of its instruction, before it does
  anything else, and every process that is started is one \<open>Spawn\<close>. So
  \<open>commands_sent\<close> has one entry for each call, in the order of the calls, and
  \<open>processes_started\<close> one entry for each process. \<open>spawns\<close>: \<open>Popen\<close> yields a process.
\<close>

fun sent :: "effect \<Rightarrow> string list" where
  "sent (Print (Sending s)) = [s]"
| "sent e = []"

definition commands_sent :: "effect list \<Rightarrow> string list" where
  "commands_sent fx = concat (map sent fx)"

fun spawn_of :: "effect \<Rightarrow> (string list \<times> string \<times> string) list" where
  "spawn_of (Spawn args dir input) = [(args, dir, input)]"
| "spawn_of e = []"

definition processes_started :: "effect list \<Rightarrow> (string list \<times> string \<times> string) list" where
  "processes_started fx = concat (map spawn_of fx)"

definition spawns :: "proc_event \<Rightarrow> bool" where
  "spawns ev = (case Popen ev of Inl e \<Rightarrow> False | Inr p \<Rightarrow> True)"

text \<open>The numbered steps up to and including the first that halts, runnable or not:
  what the loops of the two monitors attempt.\<close>

definition upto_first_halt :: "environment \<Rightarrow> (nat \<times> step) list \<Rightarrow> (nat \<times> step) list" where
  "upto_first_halt env ist =
     takeWhile (\<lambda>x. \<not> halts env x) ist @ take 1 (dropWhile (\<lambda>x. \<not> halts env x) ist)"

section \<open>Concrete inputs\<close>

text \<open>A step with a description, an instruction and a \<open>critical\<close> flag and no context; an
  orchestrator as \<open>__init__\<close> leaves it; an environment in which the clock reads the step
  number and the subprocesses behave as given.\<close>

definition mk_step :: "string \<Rightarrow> string \<Rightarrow> bool \<Rightarrow> step" where
  "mk_step d i c = \<lparr> description = Some d, instruction = Some i, step_context = None,
                     critical = Some c \<rparr>"

definition fresh :: orchestrator where
  "fresh = init_orchestrator ''/home/u'' ''/work'' []"

definition env_of :: "(nat \<Rightarrow> proc_event) \<Rightarrow> environment" where
  "env_of p = \<lparr> step_clock = (\<lambda>i. i), step_process = p, report_clock = 100, file_clock = 101 \<rparr>"

section \<open>One command\<close>

lemma ecc_PopenFails:
  "execute_codex_command self now (PopenFails e m) instr ctx =
     Inr (\<lparr> timestamp = now, res_instruction = instr, stdout = None, stderr = None,
            returncode = None, error = Some m, success = False \<rparr>,
          self, [Print (Sending (py_slice 100 instr)), Print (ExecutionError m)])"
  by (simp add: execute_codex_command_def Popen_def)

lemma ecc_Runs:
  "execute_codex_command self now (Runs d out err rc) instr ctx =
     (if (case d of None \<Rightarrow> False | Some s \<Rightarrow> s \<le> 300) then
        Inr (\<lparr> timestamp = now, res_instruction = instr, stdout = Some out, stderr = Some err,
               returncode = Some rc, error = None, success = (rc = 0) \<rparr>,
             self\<lparr> execution_log := execution_log self @
               [\<lparr> timestamp = now, res_instruction = instr, stdout = Some out, stderr = Some err,
                  returncode = Some rc, error = None, success = (rc = 0) \<rparr>] \<rparr>,
             [Print (Sending (py_slice 100 instr)),
              Spawn (cmd_args self) (working_dir self) (full_instruction instr ctx),
              Print (if rc = 0 then TaskCompleted else CodexError (py_slice 200 err))])
      else
        Inr (\<lparr> timestamp = now, res_instruction = instr, stdout = None, stderr = None,
               returncode = None, error = Some ''Timeout after 5 minutes'', success = False \<rparr>,
             self,
             [Print (Sending (py_slice 100 instr)),
              Spawn (cmd_args self) (working_dir self) (full_instruction instr ctx),
              Print TimedOutNotice, Kill]))"
  by (cases d) (simp_all add: execute_codex_command_def Popen_def communicate_def Let_def)

lemma py_slice_echo_hi: "py_slice 100 ''echo hi'' = ''echo hi''"
  by code_simp

lemma ecc_Garbled:
  "execute_codex_command self now (Garbled d m rc) instr ctx =
     (if (case d of None \<Rightarrow> False | Some s \<Rightarrow> s \<le> 300) then
        Inr (\<lparr> timestamp = now, res_instruction = instr, stdout = None, stderr = None,
               returncode = None, error = Some m, success = False \<rparr>,
             self,
             [Print (Sending (py_slice 100 instr)),
              Spawn (cmd_args self) (working_dir self) (full_instruction instr ctx),
              Print (ExecutionError m)])
      else
        Inr (\<lparr> timestamp = now, res_instruction = instr, stdout = None, stderr = None,
               returncode = None, error = Some ''Timeout after 5 minutes'', success = False \<rparr>,
             self,
             [Print (Sending (py_slice 100 instr)),
              Spawn (cmd_args self) (working_dir self) (full_instruction instr ctx),
              Print TimedOutNotice, Kill]))"
  by (cases d) (simp_all add: execute_codex_command_def Popen_def communicate_def Let_def)

lemma terminates_Runs:
  "terminates (Runs d out err rc) = (case d of None \<Rightarrow> False | Some s \<Rightarrow> s \<le> 300)"
  by (cases d) (simp_all add: terminates_def Popen_def communicate_def)

lemma exits_ok_Runs:
  "exits_ok (Runs d out err rc) = (terminates (Runs d out err rc) \<and> rc = 0)"
  by (cases d) (simp_all add: terminates_def exits_ok_def Popen_def communicate_def)

lemma not_terminates_PopenFails: "\<not> terminates (PopenFails e m)" "\<not> exits_ok (PopenFails e m)"
  by (simp_all add: terminates_def exits_ok_def Popen_def)

lemma not_terminates_Garbled: "\<not> terminates (Garbled d m rc)" "\<not> exits_ok (Garbled d m rc)"
  by (cases d; simp add: terminates_def exits_ok_def Popen_def communicate_def)+

text \<open>
  C5, as the code has it. \<open>execute_codex_command\<close> returns for every answer of the
  operating system, so nothing is raised to the caller: a spawn that fails for lack of
  resources (no pipe, no fork) is caught by the same \<open>except Exception\<close> clause as a
  missing executable, and comes back as a dict with \<open>success = False\<close> and the text of
  the exception under \<open>error\<close>; so does output that cannot be decoded, when the process
  exited within the timeout. \<open>success\<close> is true exactly when the process exited with
  status zero within the timeout, having written text.
\<close>

theorem execute_codex_command_never_raises:
  "\<exists>res self' fx.
      execute_codex_command self now ev instr ctx = Inr (res, self', fx) \<and>
      success res = exits_ok ev \<and>
      error res = (case ev of PopenFails e m \<Rightarrow> Some m
                   | Runs d out err rc \<Rightarrow>
                       if terminates ev then None else Some ''Timeout after 5 minutes''
                   | Garbled d m rc \<Rightarrow>
                       if (case d of None \<Rightarrow> False | Some s \<Rightarrow> s \<le> 300) then Some m
                       else Some ''Timeout after 5 minutes'')"
proof (cases ev)
  case (PopenFails e m)
  then show ?thesis by (simp add: ecc_PopenFails not_terminates_PopenFails)
next
  case (Runs d out err rc)
  then show ?thesis by (simp add: ecc_Runs exits_ok_Runs terminates_Runs)
next
  case (Garbled d m rc)
  then show ?thesis by (simp add: ecc_Garbled not_terminates_Garbled)
qed

text \<open>
  C5 as stated fails: the claim has resource exhaustion raised to the caller. A spawn
  that cannot fork is resource exhaustion, and the call returns a dict.
\<close>

theorem resource_exhaustion_returned_as_data:
  "resource_exhaustion (PopenFails CannotFork ''[Errno 11] Resource temporarily unavailable'') \<and>
   execute_codex_command (init_orchestrator ''/home/u'' ''/work'' []) 0
       (PopenFails CannotFork ''[Errno 11] Resource temporarily unavailable'') ''echo hi'' [] =
     Inr (\<lparr> timestamp = 0, res_instruction = ''echo hi'', stdout = None, stderr = None,
            returncode = None, error = Some ''[Errno 11] Resource temporarily unavailable'',
            success = False \<rparr>,
          init_orchestrator ''/home/u'' ''/work'' [],
          [Print (Sending ''echo hi''),
           Print (ExecutionError ''[Errno 11] Resource temporarily unavailable'')])"
  by (simp add: py_slice_echo_hi resource_exhaustion_def execute_codex_command_def Popen_def)



text \<open>
  C9 at a command that times out: the dict is returned, and \<open>execution_log\<close> is as it
  was (empty), although a command exiting with a non-zero status is logged.
\<close>

theorem timeout_result_not_logged:
  "execute_codex_command (init_orchestrator ''/home/u'' ''/work'' []) 0
       (Runs None [] [] 0) ''echo hi'' [] =
     Inr (\<lparr> timestamp = 0, res_instruction = ''echo hi'', stdout = None, stderr = None,
            returncode = None, error = Some ''Timeout after 5 minutes'', success = False \<rparr>,
          init_orchestrator ''/home/u'' ''/work'' [],
          [Print (Sending ''echo hi''),
           Spawn (cmd_args (init_orchestrator ''/home/u'' ''/work'' [])) ''/work'' ''echo hi'',
           Print TimedOutNotice, Kill]) \<and>
   execution_log (init_orchestrator ''/home/u'' ''/work'' []) = []"
  by (simp add: py_slice_echo_hi execute_codex_command_def Popen_def communicate_def init_orchestrator_def
        full_instruction_def)

section \<open>The loop of \<open>execute_plan\<close>\<close>

lemma ecc_props:
  "\<exists>res fx. execute_codex_command self now ev instr ctx =
       Inr (res, self\<lparr> execution_log := execution_log self @ (if terminates ev then [res] else []) \<rparr>, fx) \<and>
     success res = exits_ok ev \<and> res_instruction res = instr \<and> timestamp res = now \<and>
     (returncode res \<noteq> None) = terminates ev \<and>
     commands_sent fx = [py_slice 100 instr] \<and>
     processes_started fx =
       (if spawns ev then [(cmd_args self, working_dir self, full_instruction instr ctx)] else [])"
proof (cases ev)
  case (PopenFails e m)
  then show ?thesis
    by (simp add: ecc_PopenFails not_terminates_PopenFails commands_sent_def processes_started_def
          spawns_def Popen_def)
next
  case (Runs d out err rc)
  then show ?thesis
    by (simp add: ecc_Runs exits_ok_Runs terminates_Runs commands_sent_def processes_started_def
          spawns_def Popen_def)
next
  case (Garbled d m rc)
  then show ?thesis
    by (simp add: ecc_Garbled not_terminates_Garbled commands_sent_def processes_started_def
          spawns_def Popen_def)
qed

lemma attempted_Nil: "attempted env [] = []"
  by (simp add: attempted_def runnable_def)

lemma attempted_skip:
  "dict_get (instruction st) [] = [] \<Longrightarrow> attempted env ((i, st) # rest) = attempted env rest"
  by (simp add: attempted_def runnable_def)

lemma attempted_halt:
  "dict_get (instruction st) [] \<noteq> [] \<Longrightarrow> halts env (i, st) \<Longrightarrow>
     attempted env ((i, st) # rest) = [(i, st)]"
  by (simp add: attempted_def runnable_def)

lemma attempted_go:
  "dict_get (instruction st) [] \<noteq> [] \<Longrightarrow> \<not> halts env (i, st) \<Longrightarrow>
     attempted env ((i, st) # rest) = (i, st) # attempted env rest"
  by (simp add: attempted_def runnable_def)

lemma execute_steps_spec:
  "\<exists>new self' fx'.
     execute_steps env ist self results fx = Inr (results @ new, self', fx') \<and>
     map step_no new = map fst (attempted env ist) \<and>
     (\<forall>r\<in>set new. success (result r) = exits_ok (step_process env (step_no r))) \<and>
     self' = self\<lparr> execution_log := execution_log self @
                       map result (filter (\<lambda>r. returncode (result r) \<noteq> None) new) \<rparr> \<and>
     map (\<lambda>r. (step_no r, res_instruction (result r), success (result r))) new =
       map (\<lambda>(i, st). (i, dict_get (instruction st) [], exits_ok (step_process env i)))
         (attempted env ist) \<and>
     commands_sent fx' =
       commands_sent fx @
       map (\<lambda>(i, st). py_slice 100 (dict_get (instruction st) [])) (attempted env ist) \<and>
     processes_started fx' =
       processes_started fx @
       map (\<lambda>(i, st). (cmd_args self, working_dir self,
                        full_instruction (dict_get (instruction st) [])
                          (dict_get (step_context st) [])))
         (filter (\<lambda>(i, st). spawns (step_process env i)) (attempted env ist))"
proof (induction ist arbitrary: self results fx)
  case Nil
  then show ?case by (simp add: attempted_Nil)
next
  case (Cons a ist)
  obtain i st where a: "a = (i, st)" by (cases a)
  show ?case
  proof (cases "dict_get (instruction st) [] = []")
    case True
    have b: "commands_sent (fx @ [Print Rule, Print (StepBanner i (length (task_plan self))
                 (dict_get (description st) [])), Print Rule] @ [Print MissingInstruction]) =
               commands_sent fx"
        "processes_started (fx @ [Print Rule, Print (StepBanner i (length (task_plan self))
                 (dict_get (description st) [])), Print Rule] @ [Print MissingInstruction]) =
               processes_started fx"
      by (simp_all add: commands_sent_def processes_started_def)
    show ?thesis
      using Cons.IH[of self results "fx @ [Print Rule, Print (StepBanner i (length (task_plan self))
                 (dict_get (description st) [])), Print Rule] @ [Print MissingInstruction]"] a True
      unfolding b by (simp add: Let_def attempted_skip)
  next
    case False
    let ?ev = "step_process env i"
    let ?instr = "dict_get (instruction st) []"
    let ?ctx = "dict_get (step_context st) []"
    obtain res cfx where e: "execute_codex_command self (step_clock env i) ?ev ?instr ?ctx =
          Inr (res, self\<lparr> execution_log := execution_log self @ (if terminates ?ev then [res] else []) \<rparr>, cfx)"
      and s: "success res = exits_ok ?ev" and t: "(returncode res \<noteq> None) = terminates ?ev"
      and ri: "res_instruction res = ?instr"
      and cs: "commands_sent cfx = [py_slice 100 ?instr]"
      and ps: "processes_started cfx =
                 (if spawns ?ev then [(cmd_args self, working_dir self, full_instruction ?instr ?ctx)]
                  else [])"
      using ecc_props[of self "step_clock env i" ?ev ?instr ?ctx] by blast
    let ?self1 = "self\<lparr> execution_log := execution_log self @ (if terminates ?ev then [res] else []) \<rparr>"
    let ?entry = "\<lparr> step_no = i, step_description = dict_get (description st) [], result = res \<rparr>"
    let ?banner = "[Print Rule, Print (StepBanner i (length (task_plan self)) (dict_get (description st) [])), Print Rule]"
    have cb: "commands_sent (fx @ ?banner @ cfx) = commands_sent fx @ [py_slice 100 ?instr]"
      using cs by (simp add: commands_sent_def)
    have pb: "processes_started (fx @ ?banner @ cfx) =
                processes_started fx @
                (if spawns ?ev then [(cmd_args self, working_dir self, full_instruction ?instr ?ctx)]
                 else [])"
      using ps by (simp add: processes_started_def)
    show ?thesis
    proof (cases "halts env (i, st)")
      case True
      then have h: "\<not> success res \<and> dict_get (critical st) True" using s by (simp add: halts_def)
      have att: "attempted env (a # ist) = [(i, st)]"
        using False True a by (simp add: attempted_halt)
      have "execute_steps env (a # ist) self results fx =
              Inr (results @ [?entry], ?self1, (fx @ ?banner @ cfx) @ [Print CriticalStop])"
        using False e h a by (simp add: Let_def)
      moreover have "map step_no [?entry] = map fst (attempted env (a # ist))"
        unfolding att by simp
      moreover have "\<forall>r\<in>set [?entry]. success (result r) = exits_ok (step_process env (step_no r))"
        using s by simp
      moreover have "?self1 = self\<lparr> execution_log := execution_log self @
                       map result (filter (\<lambda>r. returncode (result r) \<noteq> None) [?entry]) \<rparr>"
        using t by simp
      moreover have "map (\<lambda>r. (step_no r, res_instruction (result r), success (result r))) [?entry] =
          map (\<lambda>(i, st). (i, dict_get (instruction st) [], exits_ok (step_process env i)))
            (attempted env (a # ist))"
        unfolding att using s ri by simp
      moreover have "commands_sent ((fx @ ?banner @ cfx) @ [Print CriticalStop]) =
          commands_sent fx @
          map (\<lambda>(i, st). py_slice 100 (dict_get (instruction st) [])) (attempted env (a # ist))"
        unfolding att using cb by (simp add: commands_sent_def)
      moreover have "processes_started ((fx @ ?banner @ cfx) @ [Print CriticalStop]) =
          processes_started fx @
          map (\<lambda>(i, st). (cmd_args self, working_dir self,
                        full_instruction (dict_get (instruction st) [])
                          (dict_get (step_context st) [])))
            (filter (\<lambda>(i, st). spawns (step_process env i)) (attempted env (a # ist)))"
        unfolding att using pb by (simp add: processes_started_def)
      ultimately show ?thesis by blast
    next
      case nh: False
      then have h: "\<not> (\<not> success res \<and> dict_get (critical st) True)" using s by (simp add: halts_def)
      have att: "attempted env (a # ist) = (i, st) # attempted env ist"
        using False nh a by (simp add: attempted_go)
      let ?fx1 = "(fx @ ?banner @ cfx) @ (if i < length (task_plan ?self1) then [Sleep 2000] else [])"
      have c1: "commands_sent ?fx1 = commands_sent fx @ [py_slice 100 ?instr]"
        using cb by (simp add: commands_sent_def)
      have p1: "processes_started ?fx1 =
                processes_started fx @
                (if spawns ?ev then [(cmd_args self, working_dir self, full_instruction ?instr ?ctx)]
                 else [])"
        using pb by (simp add: processes_started_def)
      have same: "cmd_args ?self1 = cmd_args self" "working_dir ?self1 = working_dir self"
        by (simp_all add: cmd_args_def)
      obtain new self' fx' where
        r: "execute_steps env ist ?self1 (results @ [?entry]) ?fx1 = Inr ((results @ [?entry]) @ new, self', fx')"
        and m: "map step_no new = map fst (attempted env ist)"
        and ss: "\<forall>r\<in>set new. success (result r) = exits_ok (step_process env (step_no r))"
        and l: "self' = ?self1\<lparr> execution_log := execution_log ?self1 @
                       map result (filter (\<lambda>r. returncode (result r) \<noteq> None) new) \<rparr>"
        and rows: "map (\<lambda>r. (step_no r, res_instruction (result r), success (result r))) new =
            map (\<lambda>(i, st). (i, dict_get (instruction st) [], exits_ok (step_process env i)))
              (attempted env ist)"
        and c: "commands_sent fx' =
            commands_sent ?fx1 @
            map (\<lambda>(i, st). py_slice 100 (dict_get (instruction st) [])) (attempted env ist)"
        and pr: "processes_started fx' =
            processes_started ?fx1 @
            map (\<lambda>(i, st). (cmd_args ?self1, working_dir ?self1,
                        full_instruction (dict_get (instruction st) [])
                          (dict_get (step_context st) [])))
              (filter (\<lambda>(i, st). spawns (step_process env i)) (attempted env ist))"
        using Cons.IH[of ?self1 "results @ [?entry]" ?fx1] by blast
      have "execute_steps env (a # ist) self results fx = Inr (results @ (?entry # new), self', fx')"
        using False e h a r by (auto simp add: Let_def)
      moreover have "map step_no (?entry # new) = map fst (attempted env (a # ist))"
        unfolding att using m by simp
      moreover have "\<forall>r\<in>set (?entry # new). success (result r) = exits_ok (step_process env (step_no r))"
        using s ss by simp
      moreover have "self' = self\<lparr> execution_log := execution_log self @
                       map result (filter (\<lambda>r. returncode (result r) \<noteq> None) (?entry # new)) \<rparr>"
        using t l by simp
      moreover have "map (\<lambda>r. (step_no r, res_instruction (result r), success (result r))) (?entry # new) =
          map (\<lambda>(i, st). (i, dict_get (instruction st) [], exits_ok (step_process env i)))
            (attempted env (a # ist))"
        unfolding att using s ri rows by simp
      moreover have "commands_sent fx' =
          commands_sent fx @
          map (\<lambda>(i, st). py_slice 100 (dict_get (instruction st) [])) (attempted env (a # ist))"
        unfolding att c c1 by simp
      moreover have "processes_started fx' =
          processes_started fx @
          map (\<lambda>(i, st). (cmd_args self, working_dir self,
                        full_instruction (dict_get (instruction st) [])
                          (dict_get (step_context st) [])))
            (filter (\<lambda>(i, st). spawns (step_process env i)) (attempted env (a # ist)))"
        unfolding att pr p1 same by simp
      ultimately show ?thesis by blast
    qed
  qed
qed

lemma completed_count: "sum_list [1. r \<leftarrow> rs, P r] = length (filter P rs)"
  by (induction rs) simp_all

lemma generate_report_fields:
  "fst (generate_report self t f results) =
     \<lparr> summary = \<lparr> total_steps = length (task_plan self),
                    completed_steps = length (filter (\<lambda>r. success (result r)) results),
                    success_rate = rate_text (length (filter (\<lambda>r. success (result r)) results))
                                             (length (task_plan self)),
                    execution_time = t \<rparr>,
       steps = results, logs = execution_log self \<rparr>"
  by (simp add: generate_report_def Let_def completed_count)

lemma execute_plan_spec:
  "\<exists>new fx.
     execute_plan self env =
       Inr (fst (generate_report
                  (self\<lparr> execution_log := execution_log self @
                       map result (filter (\<lambda>r. returncode (result r) \<noteq> None) new) \<rparr>)
                  (report_clock env) (file_clock env) new),
            self\<lparr> execution_log := execution_log self @
                       map result (filter (\<lambda>r. returncode (result r) \<noteq> None) new) \<rparr>, fx) \<and>
     map step_no new = map fst (attempted env (enumerate 1 (task_plan self))) \<and>
     (\<forall>r\<in>set new. success (result r) = exits_ok (step_process env (step_no r))) \<and>
     map (\<lambda>r. (step_no r, res_instruction (result r), success (result r))) new =
       map (\<lambda>(i, st). (i, dict_get (instruction st) [], exits_ok (step_process env i)))
         (attempted env (enumerate 1 (task_plan self))) \<and>
     commands_sent fx =
       map (\<lambda>(i, st). py_slice 100 (dict_get (instruction st) []))
         (attempted env (enumerate 1 (task_plan self))) \<and>
     processes_started fx =
       map (\<lambda>(i, st). (cmd_args self, working_dir self,
                        full_instruction (dict_get (instruction st) [])
                          (dict_get (step_context st) [])))
         (filter (\<lambda>(i, st). spawns (step_process env i))
            (attempted env (enumerate 1 (task_plan self))))"
proof -
  obtain new self' fx' where
    r: "execute_steps env (enumerate 1 (task_plan self)) self [] [] = Inr ([] @ new, self', fx')"
    and m: "map step_no new = map fst (attempted env (enumerate 1 (task_plan self)))"
    and s: "\<forall>r\<in>set new. success (result r) = exits_ok (step_process env (step_no r))"
    and l: "self' = self\<lparr> execution_log := execution_log self @
                       map result (filter (\<lambda>r. returncode (result r) \<noteq> None) new) \<rparr>"
    and rows: "map (\<lambda>r. (step_no r, res_instruction (result r), success (result r))) new =
       map (\<lambda>(i, st). (i, dict_get (instruction st) [], exits_ok (step_process env i)))
         (attempted env (enumerate 1 (task_plan self)))"
    and c: "commands_sent fx' =
       commands_sent [] @
       map (\<lambda>(i, st). py_slice 100 (dict_get (instruction st) []))
         (attempted env (enumerate 1 (task_plan self)))"
    and p: "processes_started fx' =
       processes_started [] @
       map (\<lambda>(i, st). (cmd_args self, working_dir self,
                        full_instruction (dict_get (instruction st) [])
                          (dict_get (step_context st) [])))
         (filter (\<lambda>(i, st). spawns (step_process env i))
            (attempted env (enumerate 1 (task_plan self))))"
    using execute_steps_spec[of env "enumerate 1 (task_plan self)" self "[]" "[]"] by blast
  let ?rfx = "snd (generate_report self' (report_clock env) (file_clock env) new)"
  have g: "commands_sent ?rfx = []" "processes_started ?rfx = []"
    by (simp_all add: generate_report_def Let_def commands_sent_def processes_started_def)
  have run: "execute_plan self env =
          Inr (fst (generate_report self' (report_clock env) (file_clock env) new), self',
               fx' @ ?rfx)"
    using r by (simp add: execute_plan_def split: prod.splits)
  have c': "commands_sent (fx' @ ?rfx) =
       map (\<lambda>(i, st). py_slice 100 (dict_get (instruction st) []))
         (attempted env (enumerate 1 (task_plan self)))"
    using c g(1) by (simp add: commands_sent_def)
  have p': "processes_started (fx' @ ?rfx) =
       map (\<lambda>(i, st). (cmd_args self, working_dir self,
                        full_instruction (dict_get (instruction st) [])
                          (dict_get (step_context st) [])))
         (filter (\<lambda>(i, st). spawns (step_process env i))
            (attempted env (enumerate 1 (task_plan self))))"
    using p g(2) by (simp add: processes_started_def)
  from run m s rows c' p' show ?thesis unfolding l by blast
qed

lemma attempted_subset: "set (attempted env ist) \<subseteq> set (runnable ist)"
proof -
  have "set (take 1 (dropWhile (\<lambda>x. \<not> halts env x) (runnable ist))) \<subseteq> set (runnable ist)"
    using set_take_subset set_dropWhileD by fastforce
  moreover have "set (takeWhile (\<lambda>x. \<not> halts env x) (runnable ist)) \<subseteq> set (runnable ist)"
    using set_takeWhileD by fastforce
  ultimately show ?thesis by (simp add: attempted_def)
qed

lemma attempted_all:
  assumes "\<forall>x\<in>set ist. dict_get (instruction (snd x)) [] \<noteq> [] \<and> \<not> halts env x"
  shows "attempted env ist = ist"
proof -
  have r: "runnable ist = ist" using assms by (auto simp: runnable_def filter_id_conv)
  have t: "takeWhile (\<lambda>x. \<not> halts env x) ist = ist" using assms by (simp add: takeWhile_eq_all_conv)
  have d: "dropWhile (\<lambda>x. \<not> halts env x) ist = []" using assms by simp
  show ?thesis by (simp add: attempted_def r t d)
qed

lemma attempted_upto:
  assumes "\<forall>x\<in>set pre. dict_get (instruction (snd x)) [] \<noteq> [] \<and> \<not> halts env x"
    and "dict_get (instruction (snd y)) [] \<noteq> []" and "halts env y"
  shows "attempted env (pre @ y # post) = pre @ [y]"
proof -
  have r: "runnable (pre @ y # post) = pre @ y # runnable post"
    using assms by (auto simp: runnable_def filter_id_conv)
  have t: "takeWhile (\<lambda>x. \<not> halts env x) (pre @ y # runnable post) = pre"
    using assms by (simp add: takeWhile_append2)
  have d: "dropWhile (\<lambda>x. \<not> halts env x) (pre @ y # runnable post) = y # runnable post"
    using assms by (simp add: dropWhile_append2)
  show ?thesis by (simp add: attempted_def r t d)
qed

lemma attempted_take:
  "attempted env ist =
     take (Suc (length (takeWhile (\<lambda>x. \<not> halts env x) (runnable ist)))) (runnable ist)"
proof -
  let ?tw = "takeWhile (\<lambda>x. \<not> halts env x) (runnable ist)"
  let ?dw = "dropWhile (\<lambda>x. \<not> halts env x) (runnable ist)"
  have "take (Suc (length ?tw)) (?tw @ ?dw) = ?tw @ take 1 ?dw"
    by (simp del: takeWhile_dropWhile_id)
  then show ?thesis by (simp add: attempted_def)
qed

lemma attempted_sorted: "sorted_wrt (<) (map fst (attempted env (enumerate n plan)))"
proof -
  have "sorted_wrt (<) (map fst (enumerate n plan))" by simp
  then have "sorted_wrt (\<lambda>x y. fst x < fst y) (enumerate n plan)" by (simp only: sorted_wrt_map)
  then have "sorted_wrt (\<lambda>x y. fst x < fst y) (runnable (enumerate n plan))"
    by (simp add: runnable_def sorted_wrt_filter)
  then have "sorted_wrt (\<lambda>x y. fst x < fst y) (attempted env (enumerate n plan))"
    by (simp add: attempted_take sorted_wrt_take)
  then show ?thesis by (simp only: sorted_wrt_map)
qed

lemma count_by_step_no:
  assumes "\<forall>r\<in>set new. success (result r) = ok (step_no r)"
  shows "length (filter (\<lambda>r. success (result r)) new) = length (filter ok (map step_no new))"
proof -
  have "filter (\<lambda>r. success (result r)) new = filter (ok \<circ> step_no) new"
    using assms by (intro filter_cong) simp_all
  then show ?thesis by simp
qed

lemma enumerate_split:
  assumes "1 \<le> k" "k \<le> length plan"
  shows "enumerate 1 plan = enumerate 1 (take (k - 1) plan) @ (k, plan ! (k - 1)) # enumerate (Suc k) (drop k plan)"
proof -
  have "plan = take (k - 1) plan @ plan ! (k - 1) # drop (Suc (k - 1)) plan"
    using assms by (intro id_take_nth_drop) simp
  then have "enumerate 1 plan = enumerate 1 (take (k - 1) plan @ plan ! (k - 1) # drop k plan)"
    using assms by simp
  also have "\<dots> = enumerate 1 (take (k - 1) plan) @ (k, plan ! (k - 1)) # enumerate (Suc k) (drop k plan)"
    using assms by (simp add: enumerate_append_eq min_def)
  finally show ?thesis .
qed

lemma map_steps_enumerate: "map (\<lambda>(i, st). f st) (enumerate n xs) = map f xs"
  by (induction xs arbitrary: n) simp_all

lemma attempted_halting_last:
  assumes "x \<in> set (attempted env ist)" and "halts env x"
  shows "attempted env ist = takeWhile (\<lambda>x. \<not> halts env x) (runnable ist) @ [x]"
proof -
  let ?tw = "takeWhile (\<lambda>x. \<not> halts env x) (runnable ist)"
  let ?dw = "dropWhile (\<lambda>x. \<not> halts env x) (runnable ist)"
  have "x \<notin> set ?tw" using assms(2) set_takeWhileD by fastforce
  then have "x \<in> set (take 1 ?dw)" using assms(1) by (simp add: attempted_def)
  then have "take 1 ?dw = [x]" by (cases ?dw) simp_all
  then show ?thesis by (simp add: attempted_def)
qed

lemma attempted_of_plan:
  assumes "(k, st) \<in> set (attempted env (enumerate 1 plan))"
  shows "st = plan ! (k - 1)"
proof -
  have "set (attempted env (enumerate 1 plan)) \<subseteq> set (runnable (enumerate 1 plan))"
    by (rule attempted_subset)
  moreover have "set (runnable (enumerate 1 plan)) \<subseteq> set (enumerate 1 plan)"
    by (simp add: runnable_def)
  ultimately have "(k, st) \<in> set (enumerate 1 plan)" using assms by blast
  then show ?thesis by (simp add: in_set_enumerate_eq)
qed

text \<open>
  C1. \<open>execute_plan\<close> always returns a report. The steps it attempted are, in plan
  order, the runnable steps up to and including the first whose command did not succeed
  while the step is critical (\<open>critical\<close> defaults to true): a failure of a non-critical
  step is recorded and does not stop the run, and a critical step that was attempted and
  failed is the last step attempted. The attempted steps are exactly the calls of
  \<open>execute_codex_command\<close> that the run made: the rows of the report, the commands
  sent, the processes started and the entries added to \<open>execution_log\<close> are those of the
  attempted steps, in order, and of no other step. Hence: if every step is non-critical
  and every command fails, all \<open>N\<close> steps are attempted, with \<open>completed_steps = 0\<close>
  and \<open>total_steps = N\<close>; and if step \<open>k\<close> is critical and fails while steps
  \<open>1..k-1\<close> succeeded, exactly the steps \<open>1..k\<close> are attempted, with
  \<open>total_steps = N\<close> and \<open>completed_steps = k - 1\<close>, and only the commands of the
  first \<open>k\<close> steps are sent. (A step that fails or succeeds is one that was run, so its
  instruction is not empty.)
\<close>

theorem execute_plan_order_and_halting:
  "\<exists>rep self' fx.
     execute_plan self env = Inr (rep, self', fx) \<and>
     map step_no (steps rep) = map fst (attempted env (enumerate 1 (task_plan self))) \<and>
     sorted_wrt (<) (map step_no (steps rep)) \<and>
     total_steps (summary rep) = length (task_plan self) \<and>
     map (\<lambda>r. (step_no r, res_instruction (result r), success (result r))) (steps rep) =
       map (\<lambda>(i, st). (i, dict_get (instruction st) [], exits_ok (step_process env i)))
         (attempted env (enumerate 1 (task_plan self))) \<and>
     commands_sent fx =
       map (\<lambda>(i, st). py_slice 100 (dict_get (instruction st) []))
         (attempted env (enumerate 1 (task_plan self))) \<and>
     processes_started fx =
       map (\<lambda>(i, st). (cmd_args self, working_dir self,
                        full_instruction (dict_get (instruction st) [])
                          (dict_get (step_context st) [])))
         (filter (\<lambda>(i, st). spawns (step_process env i))
            (attempted env (enumerate 1 (task_plan self)))) \<and>
     self' = self\<lparr> execution_log := execution_log self @
                       map result (filter (\<lambda>r. returncode (result r) \<noteq> None) (steps rep)) \<rparr> \<and>
     (\<forall>k. k \<in> set (map step_no (steps rep)) \<and> \<not> exits_ok (step_process env k) \<and>
          dict_get (critical (task_plan self ! (k - 1))) True \<longrightarrow>
        last (map step_no (steps rep)) = k) \<and>
     ((\<forall>st\<in>set (task_plan self). dict_get (instruction st) [] \<noteq> [] \<and> \<not> dict_get (critical st) True) \<and>
      (\<forall>i\<in>{1..length (task_plan self)}. \<not> exits_ok (step_process env i)) \<longrightarrow>
        map step_no (steps rep) = [1..<Suc (length (task_plan self))] \<and>
        completed_steps (summary rep) = 0 \<and>
        commands_sent fx =
          map (\<lambda>st. py_slice 100 (dict_get (instruction st) [])) (task_plan self)) \<and>
     (\<forall>k. 1 \<le> k \<and> k \<le> length (task_plan self) \<and>
          (\<forall>i\<in>{1..k}. dict_get (instruction (task_plan self ! (i - 1))) [] \<noteq> []) \<and>
          (\<forall>i\<in>{1..<k}. exits_ok (step_process env i)) \<and>
          \<not> exits_ok (step_process env k) \<and> dict_get (critical (task_plan self ! (k - 1))) True \<longrightarrow>
        map step_no (steps rep) = [1..<Suc k] \<and> completed_steps (summary rep) = k - 1 \<and>
        commands_sent fx =
          map (\<lambda>st. py_slice 100 (dict_get (instruction st) [])) (take k (task_plan self)))"
proof -
  let ?plan = "task_plan self"
  let ?N = "length ?plan"
  let ?att = "attempted env (enumerate 1 ?plan)"
  let ?f = "\<lambda>st. py_slice 100 (dict_get (instruction st) [])"
  obtain new fx where
    run: "execute_plan self env =
       Inr (fst (generate_report
                  (self\<lparr> execution_log := execution_log self @
                       map result (filter (\<lambda>r. returncode (result r) \<noteq> None) new) \<rparr>)
                  (report_clock env) (file_clock env) new),
            self\<lparr> execution_log := execution_log self @
                       map result (filter (\<lambda>r. returncode (result r) \<noteq> None) new) \<rparr>, fx)"
    and nos: "map step_no new = map fst ?att"
    and suc: "\<forall>r\<in>set new. success (result r) = exits_ok (step_process env (step_no r))"
    and rows: "map (\<lambda>r. (step_no r, res_instruction (result r), success (result r))) new =
       map (\<lambda>(i, st). (i, dict_get (instruction st) [], exits_ok (step_process env i))) ?att"
    and cs: "commands_sent fx = map (\<lambda>(i, st). ?f st) ?att"
    and ps: "processes_started fx =
       map (\<lambda>(i, st). (cmd_args self, working_dir self,
                        full_instruction (dict_get (instruction st) [])
                          (dict_get (step_context st) [])))
         (filter (\<lambda>(i, st). spawns (step_process env i)) ?att)"
    using execute_plan_spec[of self env] by blast
  let ?self' = "self\<lparr> execution_log := execution_log self @
                       map result (filter (\<lambda>r. returncode (result r) \<noteq> None) new) \<rparr>"
  let ?rep = "fst (generate_report ?self' (report_clock env) (file_clock env) new)"
  have st: "steps ?rep = new" by (simp add: generate_report_fields)
  have tot: "total_steps (summary ?rep) = ?N" by (simp add: generate_report_fields)
  have com: "completed_steps (summary ?rep) =
               length (filter (\<lambda>i. exits_ok (step_process env i)) (map step_no new))"
    using count_by_step_no[OF suc] by (simp add: generate_report_fields)
  have srt: "sorted_wrt (<) (map step_no (steps ?rep))"
    unfolding st nos by (rule attempted_sorted)
  have lg: "?self' = self\<lparr> execution_log := execution_log self @
                       map result (filter (\<lambda>r. returncode (result r) \<noteq> None) (steps ?rep)) \<rparr>"
    unfolding st ..
  have halt: "last (map step_no (steps ?rep)) = k"
    if k: "k \<in> set (map step_no (steps ?rep))" and bad: "\<not> exits_ok (step_process env k)"
      and c: "dict_get (critical (?plan ! (k - 1))) True" for k
  proof -
    from k obtain x where x: "x \<in> set ?att" "fst x = k" unfolding st nos by auto
    obtain st' where xk: "x = (k, st')" using x(2) by (cases x) simp
    have "st' = ?plan ! (k - 1)" using x(1) xk by (intro attempted_of_plan[of k st' env]) simp
    then have "halts env x" using bad c xk by (simp add: halts_def)
    then have "?att = takeWhile (\<lambda>x. \<not> halts env x) (runnable (enumerate 1 ?plan)) @ [x]"
      using x(1) by (rule attempted_halting_last[rotated])
    then have "map fst ?att =
                 map fst (takeWhile (\<lambda>x. \<not> halts env x) (runnable (enumerate 1 ?plan))) @ [k]"
      using x(2) by simp
    then show ?thesis unfolding st nos by simp
  qed
  have allfail: "map step_no (steps ?rep) = [1..<Suc ?N] \<and> completed_steps (summary ?rep) = 0 \<and>
                 commands_sent fx = map ?f ?plan"
    if a: "\<forall>st\<in>set ?plan. dict_get (instruction st) [] \<noteq> [] \<and> \<not> dict_get (critical st) True"
      and f: "\<forall>i\<in>{1..?N}. \<not> exits_ok (step_process env i)"
  proof -
    have "\<forall>x\<in>set (enumerate 1 ?plan). dict_get (instruction (snd x)) [] \<noteq> [] \<and> \<not> halts env x"
    proof
      fix x assume "x \<in> set (enumerate 1 ?plan)"
      then have "snd x \<in> set (map snd (enumerate 1 ?plan))" by (simp del: map_snd_enumerate)
      then have "snd x \<in> set ?plan" by simp
      then show "dict_get (instruction (snd x)) [] \<noteq> [] \<and> \<not> halts env x"
        using a by (cases x) (simp add: halts_def)
    qed
    then have att: "?att = enumerate 1 ?plan" by (rule attempted_all)
    have n: "map step_no new = [1..<Suc ?N]" using nos att by simp
    have "filter (\<lambda>i. exits_ok (step_process env i)) [1..<Suc ?N] = []"
      using f by (auto simp: filter_empty_conv)
    moreover have "commands_sent fx = map ?f ?plan"
      unfolding cs att by (rule map_steps_enumerate)
    ultimately show ?thesis using n com st by simp
  qed
  have crit: "map step_no (steps ?rep) = [1..<Suc k] \<and> completed_steps (summary ?rep) = k - 1 \<and>
              commands_sent fx = map ?f (take k ?plan)"
    if k: "1 \<le> k" "k \<le> ?N"
      and r: "\<forall>i\<in>{1..k}. dict_get (instruction (?plan ! (i - 1))) [] \<noteq> []"
      and ok: "\<forall>i\<in>{1..<k}. exits_ok (step_process env i)"
      and bad: "\<not> exits_ok (step_process env k)"
      and c: "dict_get (critical (?plan ! (k - 1))) True" for k
  proof -
    let ?pre = "enumerate 1 (take (k - 1) ?plan)"
    let ?y = "(k, ?plan ! (k - 1))"
    have sp: "enumerate 1 ?plan = ?pre @ ?y # enumerate (Suc k) (drop k ?plan)"
      using k by (rule enumerate_split)
    have pre: "\<forall>x\<in>set ?pre. dict_get (instruction (snd x)) [] \<noteq> [] \<and> \<not> halts env x"
    proof
      fix x assume x: "x \<in> set ?pre"
      obtain i st where xi: "x = (i, st)" by (cases x)
      from x xi k have i: "1 \<le> i" "i < k" and s: "st = ?plan ! (i - 1)"
        by (auto simp: in_set_enumerate_eq)
      show "dict_get (instruction (snd x)) [] \<noteq> [] \<and> \<not> halts env x"
        using i s r ok xi by (simp add: halts_def)
    qed
    have y1: "dict_get (instruction (snd ?y)) [] \<noteq> []" using r k by simp
    have y2: "halts env ?y" using bad c by (simp add: halts_def)
    have att: "?att = ?pre @ [?y]"
      unfolding sp using pre y1 y2 by (rule attempted_upto)
    have "min (length ?plan) (k - 1) = k - 1" using k by simp
    then have "map fst ?pre = [1..<k]" using k by simp
    moreover have "[1..<Suc k] = [1..<k] @ [k]" using k by simp
    ultimately have n: "map step_no new = [1..<Suc k]"
      using nos att by simp
    have "filter (\<lambda>i. exits_ok (step_process env i)) [1..<Suc k] = [1..<k]"
      using ok bad k by (simp add: filter_id_conv)
    moreover have "commands_sent fx = map ?f (take k ?plan)"
    proof -
      have "take (Suc (k - 1)) ?plan = take (k - 1) ?plan @ [?plan ! (k - 1)]"
        using k by (intro take_Suc_conv_app_nth) simp
      then have t: "take k ?plan = take (k - 1) ?plan @ [?plan ! (k - 1)]" using k by simp
      have "commands_sent fx = map (\<lambda>(i, st). ?f st) ?pre @ [?f (?plan ! (k - 1))]"
        unfolding cs att by simp
      also have "\<dots> = map ?f (take (k - 1) ?plan) @ [?f (?plan ! (k - 1))]"
        by (simp only: map_steps_enumerate)
      finally show ?thesis unfolding t by simp
    qed
    ultimately show ?thesis using n com st k by simp
  qed
  have h': "\<forall>k. k \<in> set (map step_no (steps ?rep)) \<and> \<not> exits_ok (step_process env k) \<and>
          dict_get (critical (?plan ! (k - 1))) True \<longrightarrow> last (map step_no (steps ?rep)) = k"
    using halt by blast
  have a': "(\<forall>st\<in>set ?plan. dict_get (instruction st) [] \<noteq> [] \<and> \<not> dict_get (critical st) True) \<and>
      (\<forall>i\<in>{1..?N}. \<not> exits_ok (step_process env i)) \<longrightarrow>
        map step_no (steps ?rep) = [1..<Suc ?N] \<and> completed_steps (summary ?rep) = 0 \<and>
        commands_sent fx = map ?f ?plan"
    using allfail by blast
  have c': "\<forall>k. 1 \<le> k \<and> k \<le> ?N \<and>
          (\<forall>i\<in>{1..k}. dict_get (instruction (?plan ! (i - 1))) [] \<noteq> []) \<and>
          (\<forall>i\<in>{1..<k}. exits_ok (step_process env i)) \<and>
          \<not> exits_ok (step_process env k) \<and> dict_get (critical (?plan ! (k - 1))) True \<longrightarrow>
        map step_no (steps ?rep) = [1..<Suc k] \<and> completed_steps (summary ?rep) = k - 1 \<and>
        commands_sent fx = map ?f (take k ?plan)"
    using crit by blast
  have n': "map step_no (steps ?rep) = map fst ?att" unfolding st by (rule nos)
  have r': "map (\<lambda>r. (step_no r, res_instruction (result r), success (result r))) (steps ?rep) =
       map (\<lambda>(i, st). (i, dict_get (instruction st) [], exits_ok (step_process env i))) ?att"
    unfolding st by (rule rows)
  show ?thesis
    apply (rule exI[of _ ?rep], rule exI[of _ ?self'], rule exI[of _ fx])
    apply (intro conjI)
              apply (rule run)
             apply (rule n')
            apply (rule srt)
           apply (rule tot)
          apply (rule r')
         apply (rule cs)
        apply (rule ps)
       apply (rule lg)
      apply (rule h')
     apply (rule a')
    apply (rule c')
    done
qed

text \<open>The theorem of C1 at two plans: two non-critical steps that both fail, and three
  critical steps of which the first succeeds and the second fails, so that the command of
  the third is never sent.\<close>

theorem execute_plan_order_and_halting_witness:
  "(\<exists>rep self' fx.
      execute_plan (fresh\<lparr> task_plan := [mk_step ''a'' ''ls'' False, mk_step ''b'' ''pwd'' False] \<rparr>)
          (env_of (\<lambda>i. Runs (Some 1) [] [] 1)) = Inr (rep, self', fx) \<and>
      map step_no (steps rep) = [1, 2] \<and> total_steps (summary rep) = 2 \<and>
      completed_steps (summary rep) = 0 \<and> commands_sent fx = [''ls'', ''pwd'']) \<and>
   (\<exists>rep self' fx.
      execute_plan (fresh\<lparr> task_plan := [mk_step ''a'' ''ls'' True, mk_step ''b'' ''pwd'' True,
                                           mk_step ''c'' ''date'' True] \<rparr>)
          (env_of (\<lambda>i. Runs (Some 1) [] [] (if i = 1 then 0 else 1))) = Inr (rep, self', fx) \<and>
      map step_no (steps rep) = [1, 2] \<and> total_steps (summary rep) = 3 \<and>
      completed_steps (summary rep) = 1 \<and> commands_sent fx = [''ls'', ''pwd''] \<and>
      last (map step_no (steps rep)) = 2)"
proof
  let ?S = "fresh\<lparr> task_plan := [mk_step ''a'' ''ls'' False, mk_step ''b'' ''pwd'' False] \<rparr>"
  let ?E = "env_of (\<lambda>i. Runs (Some 1) [] [] 1)"
  have h1: "\<forall>st\<in>set (task_plan ?S). dict_get (instruction st) [] \<noteq> [] \<and> \<not> dict_get (critical st) True"
    by (simp add: mk_step_def dict_get_def)
  have h2: "\<forall>i\<in>{1..length (task_plan ?S)}. \<not> exits_ok (step_process ?E i)"
    by (simp add: env_of_def exits_ok_Runs)
  have l: "length (task_plan ?S) = 2" by simp
  have u: "[1..<Suc 2] = [1, 2]" by code_simp
  have cmds: "map (\<lambda>st. py_slice 100 (dict_get (instruction st) [])) (task_plan ?S) = [''ls'', ''pwd'']"
    by (simp add: mk_step_def dict_get_def py_slice_def is_continuation_def)
  from execute_plan_order_and_halting[of ?S ?E] obtain rep self' fx where
    r: "execute_plan ?S ?E = Inr (rep, self', fx)"
    and t: "total_steps (summary rep) = length (task_plan ?S)"
    and c: "(\<forall>st\<in>set (task_plan ?S). dict_get (instruction st) [] \<noteq> [] \<and> \<not> dict_get (critical st) True) \<and>
      (\<forall>i\<in>{1..length (task_plan ?S)}. \<not> exits_ok (step_process ?E i)) \<longrightarrow>
        map step_no (steps rep) = [1..<Suc (length (task_plan ?S))] \<and>
        completed_steps (summary rep) = 0 \<and>
        commands_sent fx =
          map (\<lambda>st. py_slice 100 (dict_get (instruction st) [])) (task_plan ?S)"
    by blast
  from c h1 h2 have "map step_no (steps rep) = [1..<Suc (length (task_plan ?S))] \<and>
        completed_steps (summary rep) = 0 \<and>
        commands_sent fx =
          map (\<lambda>st. py_slice 100 (dict_get (instruction st) [])) (task_plan ?S)" by blast
  then have "map step_no (steps rep) = [1, 2] \<and> completed_steps (summary rep) = 0 \<and>
             commands_sent fx = [''ls'', ''pwd'']"
    unfolding l u cmds .
  with r t l show "\<exists>rep self' fx. execute_plan ?S ?E = Inr (rep, self', fx) \<and>
      map step_no (steps rep) = [1, 2] \<and> total_steps (summary rep) = 2 \<and>
      completed_steps (summary rep) = 0 \<and> commands_sent fx = [''ls'', ''pwd'']"
    by auto
next
  let ?S = "fresh\<lparr> task_plan := [mk_step ''a'' ''ls'' True, mk_step ''b'' ''pwd'' True,
                                           mk_step ''c'' ''date'' True] \<rparr>"
  let ?E = "env_of (\<lambda>i. Runs (Some 1) [] [] (if i = 1 then 0 else 1))"
  have h: "1 \<le> (2::nat) \<and> 2 \<le> length (task_plan ?S) \<and>
          (\<forall>i\<in>{1..2}. dict_get (instruction (task_plan ?S ! (i - 1))) [] \<noteq> []) \<and>
          (\<forall>i\<in>{1..<2}. exits_ok (step_process ?E i)) \<and>
          \<not> exits_ok (step_process ?E 2) \<and> dict_get (critical (task_plan ?S ! (2 - 1))) True"
    by (auto simp: mk_step_def dict_get_def env_of_def exits_ok_Runs terminates_Runs nth_Cons split: nat.splits)
  have cmds: "map (\<lambda>st. py_slice 100 (dict_get (instruction st) [])) (take 2 (task_plan ?S)) =
                [''ls'', ''pwd'']"
    by (simp add: mk_step_def dict_get_def py_slice_def is_continuation_def)
  from execute_plan_order_and_halting[of ?S ?E] obtain rep self' fx where
    r: "execute_plan ?S ?E = Inr (rep, self', fx)"
    and t: "total_steps (summary rep) = length (task_plan ?S)"
    and c: "\<forall>k. 1 \<le> k \<and> k \<le> length (task_plan ?S) \<and>
          (\<forall>i\<in>{1..k}. dict_get (instruction (task_plan ?S ! (i - 1))) [] \<noteq> []) \<and>
          (\<forall>i\<in>{1..<k}. exits_ok (step_process ?E i)) \<and>
          \<not> exits_ok (step_process ?E k) \<and> dict_get (critical (task_plan ?S ! (k - 1))) True \<longrightarrow>
        map step_no (steps rep) = [1..<Suc k] \<and> completed_steps (summary rep) = k - 1 \<and>
        commands_sent fx =
          map (\<lambda>st. py_slice 100 (dict_get (instruction st) [])) (take k (task_plan ?S))"
    by blast
  from c h have "map step_no (steps rep) = [1..<Suc 2] \<and> completed_steps (summary rep) = 2 - 1 \<and>
        commands_sent fx =
          map (\<lambda>st. py_slice 100 (dict_get (instruction st) [])) (take 2 (task_plan ?S))"
    by blast
  moreover have "[1..<Suc 2] = [1, 2]" by code_simp
  ultimately have "map step_no (steps rep) = [1, 2] \<and> completed_steps (summary rep) = 1 \<and>
        commands_sent fx = [''ls'', ''pwd'']"
    unfolding cmds by simp
  moreover have "length (task_plan ?S) = 3" by simp
  ultimately show "\<exists>rep self' fx. execute_plan ?S ?E = Inr (rep, self', fx) \<and>
      map step_no (steps rep) = [1, 2] \<and> total_steps (summary rep) = 3 \<and>
      completed_steps (summary rep) = 1 \<and> commands_sent fx = [''ls'', ''pwd''] \<and>
      last (map step_no (steps rep)) = 2"
    using r t by auto
qed

lemma execute_plan_report:
  "\<exists>rep self' fx.
     execute_plan self env = Inr (rep, self', fx) \<and>
     map step_no (steps rep) = map fst (attempted env (enumerate 1 (task_plan self))) \<and>
     (\<forall>r\<in>set (steps rep). success (result r) = exits_ok (step_process env (step_no r))) \<and>
     summary rep = \<lparr> total_steps = length (task_plan self),
                      completed_steps = length (filter (\<lambda>r. success (result r)) (steps rep)),
                      success_rate = rate_text (length (filter (\<lambda>r. success (result r)) (steps rep)))
                                        (length (task_plan self)),
                      execution_time = report_clock env \<rparr> \<and>
     logs rep = execution_log self' \<and>
     self' = self\<lparr> execution_log := execution_log self @
                       map result (filter (\<lambda>r. returncode (result r) \<noteq> None) (steps rep)) \<rparr>"
proof -
  obtain new fx where
    run: "execute_plan self env =
       Inr (fst (generate_report
                  (self\<lparr> execution_log := execution_log self @
                       map result (filter (\<lambda>r. returncode (result r) \<noteq> None) new) \<rparr>)
                  (report_clock env) (file_clock env) new),
            self\<lparr> execution_log := execution_log self @
                       map result (filter (\<lambda>r. returncode (result r) \<noteq> None) new) \<rparr>, fx)"
    and nos: "map step_no new = map fst (attempted env (enumerate 1 (task_plan self)))"
    and suc: "\<forall>r\<in>set new. success (result r) = exits_ok (step_process env (step_no r))"
    using execute_plan_spec by blast
  let ?self' = "self\<lparr> execution_log := execution_log self @
                       map result (filter (\<lambda>r. returncode (result r) \<noteq> None) new) \<rparr>"
  let ?rep = "fst (generate_report ?self' (report_clock env) (file_clock env) new)"
  have st: "steps ?rep = new" by (simp add: generate_report_fields)
  have su: "summary ?rep = \<lparr> total_steps = length (task_plan self),
                      completed_steps = length (filter (\<lambda>r. success (result r)) new),
                      success_rate = rate_text (length (filter (\<lambda>r. success (result r)) new))
                                        (length (task_plan self)),
                      execution_time = report_clock env \<rparr>"
    by (simp add: generate_report_fields)
  have lg: "logs ?rep = execution_log ?self'" by (simp add: generate_report_fields)
  show ?thesis
    apply (rule exI[of _ ?rep], rule exI[of _ ?self'], rule exI[of _ fx])
    unfolding st su lg using run nos suc by simp
qed

lemma rate_half: "rate_text (Suc 0) (Suc (Suc 0)) = ''50.0%''"
  by code_simp

lemma attempted_in_plan:
  assumes "(i, st) \<in> set (attempted env (enumerate 1 plan))"
  shows "1 \<le> i \<and> i \<le> length plan \<and> st = plan ! (i - 1) \<and> dict_get (instruction st) [] \<noteq> []"
proof -
  from assms attempted_subset have "(i, st) \<in> set (runnable (enumerate 1 plan))" by blast
  then have "(i, st) \<in> set (enumerate 1 plan)" and "dict_get (instruction st) [] \<noteq> []"
    by (simp_all add: runnable_def)
  then show ?thesis by (auto simp: in_set_enumerate_eq)
qed

lemma attempted_length: "length (attempted env (enumerate n plan)) \<le> length plan"
proof -
  have "length (attempted env (enumerate n plan)) \<le> length (runnable (enumerate n plan))"
    by (simp add: attempted_take)
  also have "\<dots> \<le> length (enumerate n plan)" unfolding runnable_def by (rule length_filter_le)
  finally show ?thesis by simp
qed

text \<open>
  C7. A step whose instruction is empty (or absent) is passed over by the loop whatever
  its \<open>critical\<close> flag: the banner and the warning are printed, no command is run, no
  entry is added to the results, and the loop goes on with the rest of the plan. So no
  entry of a report belongs to a step without an instruction. For the plan of two steps
  \<open>a\<close> (\<open>echo hi\<close>) and \<open>b\<close> (empty instruction), whatever their \<open>critical\<close> flags, when
  the command of \<open>a\<close> succeeds the report has the single entry of step 1, with
  \<open>total_steps = 2\<close>, \<open>completed_steps = 1\<close> and the rate \<open>50.0%\<close>.
\<close>

theorem empty_instruction_is_skipped:
  "(dict_get (instruction st) [] = [] \<longrightarrow>
      execute_steps env ((i, st) # rest) self results fx =
      execute_steps env rest self results
        (fx @ [Print Rule,
               Print (StepBanner i (length (task_plan self)) (dict_get (description st) [])),
               Print Rule, Print MissingInstruction])) \<and>
   (\<exists>rep self' fx.
      execute_plan self env = Inr (rep, self', fx) \<and>
      (\<forall>r\<in>set (steps rep). 1 \<le> step_no r \<and> step_no r \<le> length (task_plan self) \<and>
          dict_get (instruction (task_plan self ! (step_no r - 1))) [] \<noteq> [])) \<and>
   (task_plan self = [mk_step ''a'' ''echo hi'' ca, mk_step ''b'' [] cb] \<and>
    exits_ok (step_process env 1) \<longrightarrow>
      (\<exists>rep self' fx.
         execute_plan self env = Inr (rep, self', fx) \<and>
         map step_no (steps rep) = [1] \<and>
         total_steps (summary rep) = 2 \<and> completed_steps (summary rep) = 1 \<and>
         success_rate (summary rep) = ''50.0%''))"
proof -
  obtain rep self' fx' where
    run: "execute_plan self env = Inr (rep, self', fx')"
    and nos: "map step_no (steps rep) = map fst (attempted env (enumerate 1 (task_plan self)))"
    and suc: "\<forall>r\<in>set (steps rep). success (result r) = exits_ok (step_process env (step_no r))"
    and su: "summary rep = \<lparr> total_steps = length (task_plan self),
                      completed_steps = length (filter (\<lambda>r. success (result r)) (steps rep)),
                      success_rate = rate_text (length (filter (\<lambda>r. success (result r)) (steps rep)))
                                        (length (task_plan self)),
                      execution_time = report_clock env \<rparr>"
    using execute_plan_report by blast
  have skip: "execute_steps env ((i, st) # rest) self results fx =
      execute_steps env rest self results
        (fx @ [Print Rule,
               Print (StepBanner i (length (task_plan self)) (dict_get (description st) [])),
               Print Rule, Print MissingInstruction])"
    if "dict_get (instruction st) [] = []"
    using that by (simp add: Let_def)
  have never: "1 \<le> step_no r \<and> step_no r \<le> length (task_plan self) \<and>
          dict_get (instruction (task_plan self ! (step_no r - 1))) [] \<noteq> []"
    if r: "r \<in> set (steps rep)" for r
  proof -
    from r have "step_no r \<in> set (map step_no (steps rep))" by simp
    then have "step_no r \<in> fst ` set (attempted env (enumerate 1 (task_plan self)))"
      by (simp add: nos)
    then obtain st' where "(step_no r, st') \<in> set (attempted env (enumerate 1 (task_plan self)))"
      by auto
    from attempted_in_plan[OF this] show ?thesis by auto
  qed
  have scen: "map step_no (steps rep) = [1] \<and>
         total_steps (summary rep) = 2 \<and> completed_steps (summary rep) = 1 \<and>
         success_rate (summary rep) = ''50.0%''"
    if p: "task_plan self = [mk_step ''a'' ''echo hi'' ca, mk_step ''b'' [] cb]"
      and ok: "exits_ok (step_process env 1)"
  proof -
    have "attempted env (enumerate 1 (task_plan self)) = [(1, mk_step ''a'' ''echo hi'' ca)]"
      by (simp add: p attempted_def runnable_def mk_step_def dict_get_def)
    then have n: "map step_no (steps rep) = [1]" using nos by simp
    then obtain r where s: "steps rep = [r]" and r1: "step_no r = 1" by auto
    from suc s r1 ok have "success (result r)" by simp
    then have "length (filter (\<lambda>r. success (result r)) (steps rep)) = 1" using s by simp
    then show ?thesis using n su p by (simp add: rate_half)
  qed
  have two: "\<exists>rep self' fx.
      execute_plan self env = Inr (rep, self', fx) \<and>
      (\<forall>r\<in>set (steps rep). 1 \<le> step_no r \<and> step_no r \<le> length (task_plan self) \<and>
          dict_get (instruction (task_plan self ! (step_no r - 1))) [] \<noteq> [])"
    using run never by blast
  have three: "\<exists>rep self' fx.
         execute_plan self env = Inr (rep, self', fx) \<and>
         map step_no (steps rep) = [1] \<and>
         total_steps (summary rep) = 2 \<and> completed_steps (summary rep) = 1 \<and>
         success_rate (summary rep) = ''50.0%''"
    if "task_plan self = [mk_step ''a'' ''echo hi'' ca, mk_step ''b'' [] cb] \<and>
        exits_ok (step_process env 1)"
  proof -
    from that scen have "map step_no (steps rep) = [1] \<and>
         total_steps (summary rep) = 2 \<and> completed_steps (summary rep) = 1 \<and>
         success_rate (summary rep) = ''50.0%''" by simp
    with run show ?thesis by (intro exI[of _ rep] exI[of _ self'] exI[of _ fx']) simp
  qed
  show ?thesis
  proof (intro conjI impI)
    assume "dict_get (instruction st) [] = []"
    then show "execute_steps env ((i, st) # rest) self results fx =
      execute_steps env rest self results
        (fx @ [Print Rule,
               Print (StepBanner i (length (task_plan self)) (dict_get (description st) [])),
               Print Rule, Print MissingInstruction])"
      by (rule skip)
  next
    show "\<exists>rep self' fx.
      execute_plan self env = Inr (rep, self', fx) \<and>
      (\<forall>r\<in>set (steps rep). 1 \<le> step_no r \<and> step_no r \<le> length (task_plan self) \<and>
          dict_get (instruction (task_plan self ! (step_no r - 1))) [] \<noteq> [])"
      by (rule two)
  next
    assume "task_plan self = [mk_step ''a'' ''echo hi'' ca, mk_step ''b'' [] cb] \<and>
        exits_ok (step_process env 1)"
    then show "\<exists>rep self' fx.
         execute_plan self env = Inr (rep, self', fx) \<and>
         map step_no (steps rep) = [1] \<and>
         total_steps (summary rep) = 2 \<and> completed_steps (summary rep) = 1 \<and>
         success_rate (summary rep) = ''50.0%''"
      by (rule three)
  qed
qed

text \<open>The theorem of C7 at the plan of the scenario, both steps critical, with a
  subprocess that exits with status zero.\<close>

theorem empty_instruction_is_skipped_witness:
  "execute_steps (env_of (\<lambda>i. Runs (Some 1) ''hi'' [] 0)) [(2, mk_step ''b'' [] True)]
      (fresh\<lparr> task_plan := [mk_step ''a'' ''echo hi'' True, mk_step ''b'' [] True] \<rparr>) [] [] =
    Inr ([], fresh\<lparr> task_plan := [mk_step ''a'' ''echo hi'' True, mk_step ''b'' [] True] \<rparr>,
         [Print Rule, Print (StepBanner 2 2 ''b''), Print Rule, Print MissingInstruction]) \<and>
   (\<exists>rep self' fx.
      execute_plan (fresh\<lparr> task_plan := [mk_step ''a'' ''echo hi'' True, mk_step ''b'' [] True] \<rparr>)
          (env_of (\<lambda>i. Runs (Some 1) ''hi'' [] 0)) = Inr (rep, self', fx) \<and>
      map step_no (steps rep) = [1] \<and>
      total_steps (summary rep) = 2 \<and> completed_steps (summary rep) = 1 \<and>
      success_rate (summary rep) = ''50.0%'')"
proof -
  let ?S = "fresh\<lparr> task_plan := [mk_step ''a'' ''echo hi'' True, mk_step ''b'' [] True] \<rparr>"
  let ?E = "env_of (\<lambda>i. Runs (Some 1) ''hi'' [] 0)"
  note t = empty_instruction_is_skipped[of "mk_step ''b'' [] True" ?E 2 "[]" ?S "[]" "[]" True True]
  have e: "dict_get (instruction (mk_step ''b'' [] True)) [] = []"
    by (simp add: mk_step_def dict_get_def)
  have p: "task_plan ?S = [mk_step ''a'' ''echo hi'' True, mk_step ''b'' [] True] \<and>
           exits_ok (step_process ?E 1)"
    by (simp add: env_of_def exits_ok_Runs terminates_Runs)
  have "execute_steps ?E [(2, mk_step ''b'' [] True)] ?S [] [] =
      execute_steps ?E [] ?S []
        ([] @ [Print Rule,
               Print (StepBanner 2 (length (task_plan ?S)) (dict_get (description (mk_step ''b'' [] True)) [])),
               Print Rule, Print MissingInstruction])"
    by (rule t[THEN conjunct1, rule_format, OF e])
  then have one: "execute_steps ?E [(2, mk_step ''b'' [] True)] ?S [] [] =
      Inr ([], ?S, [Print Rule, Print (StepBanner 2 2 ''b''), Print Rule, Print MissingInstruction])"
    by (simp add: mk_step_def dict_get_def)
  have three: "\<exists>rep self' fx.
         execute_plan ?S ?E = Inr (rep, self', fx) \<and>
         map step_no (steps rep) = [1] \<and>
         total_steps (summary rep) = 2 \<and> completed_steps (summary rep) = 1 \<and>
         success_rate (summary rep) = ''50.0%''"
    by (rule t[THEN conjunct2, THEN conjunct2, rule_format, OF p])
  show ?thesis by (intro conjI) (rule one, rule three)
qed

section \<open>The execution log and the report\<close>

text \<open>
  What holds of \<open>execution_log\<close>: nothing shortens it. A command appends the dict it
  returns exactly when the \<open>try\<close> body ran to its end, and otherwise leaves the log as
  it was; \<open>set_task_plan\<close> and \<open>generate_report\<close> leave it alone; a plan run appends
  the results of its steps that have a return code, in order, and its report holds the
  whole log, the entries from before the run first.
\<close>

lemma execution_log_grows:
  "(\<exists>res fx. execute_codex_command self now ev instr ctx =
       Inr (res, self\<lparr> execution_log := execution_log self @ (if terminates ev then [res] else []) \<rparr>,
            fx))"
  "execution_log (fst (set_task_plan self plan)) = execution_log self"
  "logs (fst (generate_report self t f results)) = execution_log self"
  "\<exists>rep fx. execute_plan self env =
       Inr (rep, self\<lparr> execution_log := execution_log self @
                   map result (filter (\<lambda>r. returncode (result r) \<noteq> None) (steps rep)) \<rparr>, fx) \<and>
     logs rep = execution_log self @
                   map result (filter (\<lambda>r. returncode (result r) \<noteq> None) (steps rep))"
proof -
  show "\<exists>res fx. execute_codex_command self now ev instr ctx =
       Inr (res, self\<lparr> execution_log := execution_log self @ (if terminates ev then [res] else []) \<rparr>,
            fx)"
    using ecc_props[of self now ev instr ctx] by blast
  show "execution_log (fst (set_task_plan self plan)) = execution_log self"
    by (simp add: set_task_plan_def)
  show "logs (fst (generate_report self t f results)) = execution_log self"
    by (simp add: generate_report_fields)
  obtain rep self' fx where
    run: "execute_plan self env = Inr (rep, self', fx)"
    and lg: "logs rep = execution_log self'"
    and s: "self' = self\<lparr> execution_log := execution_log self @
                       map result (filter (\<lambda>r. returncode (result r) \<noteq> None) (steps rep)) \<rparr>"
    using execute_plan_report by blast
  have "logs rep = execution_log self @
                   map result (filter (\<lambda>r. returncode (result r) \<noteq> None) (steps rep))"
    unfolding lg by (subst s) simp
  with run s show "\<exists>rep fx. execute_plan self env =
       Inr (rep, self\<lparr> execution_log := execution_log self @
                   map result (filter (\<lambda>r. returncode (result r) \<noteq> None) (steps rep)) \<rparr>, fx) \<and>
     logs rep = execution_log self @
                   map result (filter (\<lambda>r. returncode (result r) \<noteq> None) (steps rep))"
    by blast
qed

text \<open>
  C10 at a fresh runner that executes three quick commands and then a plan of one step.
  \<open>ls\<close> exits with status zero and is logged. \<open>sleep 301\<close> is still running after 300
  seconds: the call returns the timeout dict and the log is as before. \<open>cat blob\<close> exits
  with status zero after a second, having written bytes that are not text: the call
  returns the dict of the \<open>except Exception\<close> clause and the log is as before. The
  report of the plan run that follows holds under \<open>logs\<close> the entry of \<open>ls\<close>, which
  is no part of the run, and the entry of its own step, and no entry for the other two
  commands that the runner executed: the log is never cleared and is embedded whole, but
  it has not accumulated an entry for every command executed.
\<close>

theorem report_logs_lack_failed_commands:
  "execute_codex_command fresh 1 (Runs (Some 1) ''src'' [] 0) ''ls'' [] =
     Inr (\<lparr> timestamp = 1, res_instruction = ''ls'', stdout = Some ''src'', stderr = Some [],
            returncode = Some 0, error = None, success = True \<rparr>,
          fresh\<lparr> execution_log :=
            [\<lparr> timestamp = 1, res_instruction = ''ls'', stdout = Some ''src'', stderr = Some [],
               returncode = Some 0, error = None, success = True \<rparr>] \<rparr>,
          [Print (Sending ''ls''), Spawn (cmd_args fresh) ''/work'' ''ls'', Print TaskCompleted]) \<and>
   execute_codex_command
       (fresh\<lparr> execution_log :=
            [\<lparr> timestamp = 1, res_instruction = ''ls'', stdout = Some ''src'', stderr = Some [],
               returncode = Some 0, error = None, success = True \<rparr>] \<rparr>)
       2 (Runs (Some 301) ''working'' [] 0) ''sleep 301'' [] =
     Inr (\<lparr> timestamp = 2, res_instruction = ''sleep 301'', stdout = None, stderr = None,
            returncode = None, error = Some ''Timeout after 5 minutes'', success = False \<rparr>,
          fresh\<lparr> execution_log :=
            [\<lparr> timestamp = 1, res_instruction = ''ls'', stdout = Some ''src'', stderr = Some [],
               returncode = Some 0, error = None, success = True \<rparr>] \<rparr>,
          [Print (Sending ''sleep 301''), Spawn (cmd_args fresh) ''/work'' ''sleep 301'',
           Print TimedOutNotice, Kill]) \<and>
   execute_codex_command
       (fresh\<lparr> execution_log :=
            [\<lparr> timestamp = 1, res_instruction = ''ls'', stdout = Some ''src'', stderr = Some [],
               returncode = Some 0, error = None, success = True \<rparr>] \<rparr>)
       3 (Garbled (Some 1) ''invalid start byte'' 0) ''cat blob'' [] =
     Inr (\<lparr> timestamp = 3, res_instruction = ''cat blob'', stdout = None, stderr = None,
            returncode = None, error = Some ''invalid start byte'', success = False \<rparr>,
          fresh\<lparr> execution_log :=
            [\<lparr> timestamp = 1, res_instruction = ''ls'', stdout = Some ''src'', stderr = Some [],
               returncode = Some 0, error = None, success = True \<rparr>] \<rparr>,
          [Print (Sending ''cat blob''), Spawn (cmd_args fresh) ''/work'' ''cat blob'',
           Print (ExecutionError ''invalid start byte'')]) \<and>
   (case execute_plan
           (fresh\<lparr> execution_log :=
              [\<lparr> timestamp = 1, res_instruction = ''ls'', stdout = Some ''src'', stderr = Some [],
                 returncode = Some 0, error = None, success = True \<rparr>],
              task_plan := [mk_step ''a'' ''echo hi'' True] \<rparr>)
           \<lparr> step_clock = (\<lambda>i. 3 + i), step_process = (\<lambda>i. Runs (Some 1) ''hi'' [] 0),
             report_clock = 5, file_clock = 6 \<rparr> of
      Inl e \<Rightarrow> False
    | Inr (rep, self', fx) \<Rightarrow>
        map (\<lambda>r. res_instruction (result r)) (steps rep) = [''echo hi''] \<and>
        logs rep =
          [\<lparr> timestamp = 1, res_instruction = ''ls'', stdout = Some ''src'', stderr = Some [],
             returncode = Some 0, error = None, success = True \<rparr>,
           \<lparr> timestamp = 4, res_instruction = ''echo hi'', stdout = Some ''hi'', stderr = Some [],
             returncode = Some 0, error = None, success = True \<rparr>] \<and>
        execution_log self' = logs rep)"
proof -
  have sl: "py_slice 100 ''ls'' = ''ls''" "py_slice 100 ''sleep 301'' = ''sleep 301''"
    "py_slice 100 ''cat blob'' = ''cat blob''"
    by (simp_all add: py_slice_def is_continuation_def)
  show ?thesis
    by (simp add: sl py_slice_echo_hi execute_plan_def generate_report_def execute_codex_command_def
          Popen_def communicate_def fresh_def init_orchestrator_def full_instruction_def
          cmd_args_def mk_step_def dict_get_def Let_def)
qed

text \<open>
  C3, as the code has it. \<open>generate_report\<close> takes no plan length: it reads the length
  of \<open>task_plan\<close> and the \<open>execution_log\<close> from the object, and the clock. Two calls on
  the same object with the same results give reports that differ at most in
  \<open>execution_time\<close>, which is the clock reading of each call; two objects with plans of
  the same length and the same log give the same report. Every call has effects: it dumps
  its report into a file named after the clock and prints six lines.
\<close>

theorem generate_report_up_to_clock:
  "fst (generate_report self t2 f2 results) =
     (fst (generate_report self t1 f1 results))
       \<lparr> summary := (summary (fst (generate_report self t1 f1 results)))\<lparr> execution_time := t2 \<rparr> \<rparr> \<and>
   (length (task_plan self) = length (task_plan other) \<and> execution_log self = execution_log other \<longrightarrow>
      fst (generate_report self t1 f1 results) = fst (generate_report other t1 f1 results)) \<and>
   snd (generate_report self t1 f1 results) =
     [WriteFile f1 (fst (generate_report self t1 f1 results)), Print Rule, Print ReportTitle,
      Print Rule,
      Print (Completed (completed_steps (summary (fst (generate_report self t1 f1 results))))
                       (total_steps (summary (fst (generate_report self t1 f1 results))))),
      Print (SuccessRate (success_rate (summary (fst (generate_report self t1 f1 results))))),
      Print (ReportFile f1)]"
proof (intro conjI impI)
  show "fst (generate_report self t2 f2 results) =
     (fst (generate_report self t1 f1 results))
       \<lparr> summary := (summary (fst (generate_report self t1 f1 results)))\<lparr> execution_time := t2 \<rparr> \<rparr>"
    by (simp add: generate_report_fields)
next
  assume "length (task_plan self) = length (task_plan other) \<and> execution_log self = execution_log other"
  then show "fst (generate_report self t1 f1 results) = fst (generate_report other t1 f1 results)"
    by (simp add: generate_report_fields)
next
  show "snd (generate_report self t1 f1 results) =
     [WriteFile f1 (fst (generate_report self t1 f1 results)), Print Rule, Print ReportTitle,
      Print Rule,
      Print (Completed (completed_steps (summary (fst (generate_report self t1 f1 results))))
                       (total_steps (summary (fst (generate_report self t1 f1 results))))),
      Print (SuccessRate (success_rate (summary (fst (generate_report self t1 f1 results))))),
      Print (ReportFile f1)]"
    by (simp add: generate_report_def Let_def)
qed

text \<open>The theorem of C3 at two runners with different plans of one step and empty logs.\<close>

theorem generate_report_up_to_clock_witness:
  "fst (generate_report (fresh\<lparr> task_plan := [mk_step ''a'' ''ls'' True] \<rparr>) 7 8 []) =
   fst (generate_report (fresh\<lparr> task_plan := [mk_step ''b'' ''pwd'' False] \<rparr>) 7 8 [])"
proof -
  let ?A = "fresh\<lparr> task_plan := [mk_step ''a'' ''ls'' True] \<rparr>"
  let ?B = "fresh\<lparr> task_plan := [mk_step ''b'' ''pwd'' False] \<rparr>"
  have h: "length (task_plan ?A) = length (task_plan ?B) \<and> execution_log ?A = execution_log ?B"
    by simp
  show ?thesis
    by (rule generate_report_up_to_clock[of ?A _ _ "[]" 7 8 ?B, THEN conjunct2, THEN conjunct1,
          rule_format, OF h])
qed

text \<open>
  C3 as stated fails: two calls with the same plan length (0) and the same results (none)
  at two clock readings return different reports, and a call writes a file.
\<close>

theorem generate_report_reads_clock_and_writes_file:
  "fst (generate_report fresh 1 1 []) \<noteq> fst (generate_report fresh 2 2 []) \<and>
   snd (generate_report fresh 1 1 []) =
     [WriteFile 1 \<lparr> summary = \<lparr> total_steps = 0, completed_steps = 0, success_rate = ''0%'',
                                execution_time = 1 \<rparr>, steps = [], logs = [] \<rparr>,
      Print Rule, Print ReportTitle, Print Rule, Print (Completed 0 0), Print (SuccessRate ''0%''),
      Print (ReportFile 1)]"
  by (simp add: generate_report_def rate_text_def fresh_def init_orchestrator_def Let_def)

section \<open>The bounded log history of the monitors\<close>
















section \<open>The wrappers of the monitors against \<open>execute_plan\<close>\<close>

lemma monitored_step_of_command:
  assumes "execute_codex_command self (step_clock env i) (step_process env i)
             (dict_get (instruction st) []) (dict_get (step_context st) []) = Inr (res, self1, cfx)"
  shows "\<exists>fx' m'. monitored_step env (i, st) m self results fx =
           Inr (\<not> success res \<and> dict_get (critical st) True,
                results @ [\<lparr> step_no = i, step_description = dict_get (description st) [],
                              result = res \<rparr>], self1, fx', m')"
    and "\<exists>fx' m'. monitored_step_v2 env (i, st) m2 self results fx =
           Inr (\<not> success res \<and> dict_get (critical st) True,
                results @ [\<lparr> step_no = i, step_description = dict_get (description st) [],
                              result = res \<rparr>], self1, fx', m')"
proof -
  show "\<exists>fx' m'. monitored_step env (i, st) m self results fx =
           Inr (\<not> success res \<and> dict_get (critical st) True,
                results @ [\<lparr> step_no = i, step_description = dict_get (description st) [],
                              result = res \<rparr>], self1, fx', m')"
    unfolding monitored_step_def prod.case monitored_execute_command_def assms sum.case
    by (cases "\<not> success res \<and> dict_get (critical st) True") simp_all
  show "\<exists>fx' m'. monitored_step_v2 env (i, st) m2 self results fx =
           Inr (\<not> success res \<and> dict_get (critical st) True,
                results @ [\<lparr> step_no = i, step_description = dict_get (description st) [],
                              result = res \<rparr>], self1, fx', m')"
    unfolding monitored_step_v2_def prod.case monitored_execute_command_v2_def assms sum.case
    by (cases "\<not> success res \<and> dict_get (critical st) True") simp_all
qed

lemma upto_first_halt_simps:
  "upto_first_halt env [] = []"
  "halts env x \<Longrightarrow> upto_first_halt env (x # rest) = [x]"
  "\<not> halts env x \<Longrightarrow> upto_first_halt env (x # rest) = x # upto_first_halt env rest"
  by (simp_all add: upto_first_halt_def)

lemma monitored_steps_spec:
  "\<exists>new lg fx' m'.
     monitored_steps env ist m self results fx =
       Inr (results @ new, self\<lparr> execution_log := lg \<rparr>, fx', m') \<and>
     map step_no new = map fst (upto_first_halt env ist) \<and>
     (\<forall>r\<in>set new. success (result r) = exits_ok (step_process env (step_no r)))"
proof (induction ist arbitrary: m self results fx)
  case Nil
  have "self = self\<lparr> execution_log := execution_log self \<rparr>" by simp
  then have "monitored_steps env [] m self results fx =
     Inr (results @ [], self\<lparr> execution_log := execution_log self \<rparr>, fx, m)" by simp
  then show ?case by (metis upto_first_halt_simps(1) list.simps(8) empty_iff list.set(1))
next
  case (Cons a ist)
  obtain i st where a: "a = (i, st)" by (cases a)
  let ?ev = "step_process env i"
  obtain res cfx where e: "execute_codex_command self (step_clock env i) ?ev
        (dict_get (instruction st) []) (dict_get (step_context st) []) =
          Inr (res, self\<lparr> execution_log := execution_log self @ (if terminates ?ev then [res] else []) \<rparr>, cfx)"
      and s: "success res = exits_ok ?ev"
    using ecc_props by blast
  let ?self1 = "self\<lparr> execution_log := execution_log self @ (if terminates ?ev then [res] else []) \<rparr>"
  let ?entry = "\<lparr> step_no = i, step_description = dict_get (description st) [], result = res \<rparr>"
  obtain fx1 m1 where
    st: "monitored_step env (i, st) m self results fx =
           Inr (\<not> success res \<and> dict_get (critical st) True, results @ [?entry], ?self1, fx1, m1)"
    using monitored_step_of_command(1)[OF e] by blast
  have hs: "halts env (i, st) = (\<not> success res \<and> dict_get (critical st) True)"
    using s by (simp add: halts_def)
  show ?case
  proof (cases "halts env (i, st)")
    case True
    have "monitored_step env (i, st) m self results fx = Inr (True, results @ [?entry], ?self1, fx1, m1)"
      using st hs True by simp
    then have "monitored_steps env (a # ist) m self results fx =
            Inr (results @ [?entry], ?self1, fx1, m1)"
      by (simp add: a)
    moreover have "map step_no [?entry] = map fst (upto_first_halt env (a # ist))"
      using True by (simp add: a upto_first_halt_simps)
    moreover have "\<forall>r\<in>set [?entry]. success (result r) = exits_ok (step_process env (step_no r))"
      using s by simp
    ultimately show ?thesis by blast
  next
    case False
    obtain new lg fx' m' where
      r: "monitored_steps env ist m1 ?self1 (results @ [?entry]) fx1 =
            Inr ((results @ [?entry]) @ new, ?self1\<lparr> execution_log := lg \<rparr>, fx', m')"
      and n: "map step_no new = map fst (upto_first_halt env ist)"
      and ss: "\<forall>r\<in>set new. success (result r) = exits_ok (step_process env (step_no r))"
      using Cons.IH[of m1 ?self1 "results @ [?entry]" fx1] by blast
    have "monitored_step env (i, st) m self results fx = Inr (False, results @ [?entry], ?self1, fx1, m1)"
      using st hs False by simp
    then have "monitored_steps env (a # ist) m self results fx =
            Inr (results @ (?entry # new), self\<lparr> execution_log := lg \<rparr>, fx', m')"
      using r by (simp add: a)
    moreover have "map step_no (?entry # new) = map fst (upto_first_halt env (a # ist))"
      using False n by (simp add: a upto_first_halt_simps)
    moreover have "\<forall>r\<in>set (?entry # new). success (result r) = exits_ok (step_process env (step_no r))"
      using s ss by simp
    ultimately show ?thesis by blast
  qed
qed

lemma monitored_steps_v2_spec:
  "\<exists>new lg fx' m'.
     monitored_steps_v2 env ist m self results fx =
       Inr (results @ new, self\<lparr> execution_log := lg \<rparr>, fx', m') \<and>
     map step_no new = map fst (upto_first_halt env ist) \<and>
     (\<forall>r\<in>set new. success (result r) = exits_ok (step_process env (step_no r)))"
proof (induction ist arbitrary: m self results fx)
  case Nil
  have "self = self\<lparr> execution_log := execution_log self \<rparr>" by simp
  then have "monitored_steps_v2 env [] m self results fx =
     Inr (results @ [], self\<lparr> execution_log := execution_log self \<rparr>, fx, m)" by simp
  then show ?case by (metis upto_first_halt_simps(1) list.simps(8) empty_iff list.set(1))
next
  case (Cons a ist)
  obtain i st where a: "a = (i, st)" by (cases a)
  let ?ev = "step_process env i"
  obtain res cfx where e: "execute_codex_command self (step_clock env i) ?ev
        (dict_get (instruction st) []) (dict_get (step_context st) []) =
          Inr (res, self\<lparr> execution_log := execution_log self @ (if terminates ?ev then [res] else []) \<rparr>, cfx)"
      and s: "success res = exits_ok ?ev"
    using ecc_props by blast
  let ?self1 = "self\<lparr> execution_log := execution_log self @ (if terminates ?ev then [res] else []) \<rparr>"
  let ?entry = "\<lparr> step_no = i, step_description = dict_get (description st) [], result = res \<rparr>"
  obtain fx1 m1 where
    st: "monitored_step_v2 env (i, st) m self results fx =
           Inr (\<not> success res \<and> dict_get (critical st) True, results @ [?entry], ?self1, fx1, m1)"
    using monitored_step_of_command(2)[OF e] by blast
  have hs: "halts env (i, st) = (\<not> success res \<and> dict_get (critical st) True)"
    using s by (simp add: halts_def)
  show ?case
  proof (cases "halts env (i, st)")
    case True
    have "monitored_step_v2 env (i, st) m self results fx = Inr (True, results @ [?entry], ?self1, fx1, m1)"
      using st hs True by simp
    then have "monitored_steps_v2 env (a # ist) m self results fx =
            Inr (results @ [?entry], ?self1, fx1, m1)"
      by (simp add: a)
    moreover have "map step_no [?entry] = map fst (upto_first_halt env (a # ist))"
      using True by (simp add: a upto_first_halt_simps)
    moreover have "\<forall>r\<in>set [?entry]. success (result r) = exits_ok (step_process env (step_no r))"
      using s by simp
    ultimately show ?thesis by blast
  next
    case False
    obtain new lg fx' m' where
      r: "monitored_steps_v2 env ist m1 ?self1 (results @ [?entry]) fx1 =
            Inr ((results @ [?entry]) @ new, ?self1\<lparr> execution_log := lg \<rparr>, fx', m')"
      and n: "map step_no new = map fst (upto_first_halt env ist)"
      and ss: "\<forall>r\<in>set new. success (result r) = exits_ok (step_process env (step_no r))"
      using Cons.IH[of m1 ?self1 "results @ [?entry]" fx1] by blast
    have "monitored_step_v2 env (i, st) m self results fx = Inr (False, results @ [?entry], ?self1, fx1, m1)"
      using st hs False by simp
    then have "monitored_steps_v2 env (a # ist) m self results fx =
            Inr (results @ (?entry # new), self\<lparr> execution_log := lg \<rparr>, fx', m')"
      using r by (simp add: a)
    moreover have "map step_no (?entry # new) = map fst (upto_first_halt env (a # ist))"
      using False n by (simp add: a upto_first_halt_simps)
    moreover have "\<forall>r\<in>set (?entry # new). success (result r) = exits_ok (step_process env (step_no r))"
      using s ss by simp
    ultimately show ?thesis by blast
  qed
qed


lemma monitored_execute_plan_report:
  "(\<exists>rep self' fx m'.
      monitored_execute_plan m self env = Inr (rep, self', fx, m') \<and>
      map step_no (steps rep) = map fst (upto_first_halt env (enumerate 1 (task_plan self))) \<and>
      (\<forall>r\<in>set (steps rep). success (result r) = exits_ok (step_process env (step_no r))) \<and>
      summary rep = \<lparr> total_steps = length (task_plan self),
                       completed_steps = length (filter (\<lambda>r. success (result r)) (steps rep)),
                       success_rate = rate_text (length (filter (\<lambda>r. success (result r)) (steps rep)))
                                         (length (task_plan self)),
                       execution_time = report_clock env \<rparr>) \<and>
   (\<exists>rep self' fx m'.
      monitored_execute_plan_v2 m2 self env = Inr (rep, self', fx, m') \<and>
      map step_no (steps rep) = map fst (upto_first_halt env (enumerate 1 (task_plan self))) \<and>
      (\<forall>r\<in>set (steps rep). success (result r) = exits_ok (step_process env (step_no r))) \<and>
      summary rep = \<lparr> total_steps = length (task_plan self),
                       completed_steps = length (filter (\<lambda>r. success (result r)) (steps rep)),
                       success_rate = rate_text (length (filter (\<lambda>r. success (result r)) (steps rep)))
                                         (length (task_plan self)),
                       execution_time = report_clock env \<rparr>)"
proof (intro conjI)
  obtain new lg fx' m' where
    r: "monitored_steps env (enumerate 1 (task_plan self)) (announce_plan m) self [] [] =
          Inr ([] @ new, self\<lparr> execution_log := lg \<rparr>, fx', m')"
    and n: "map step_no new = map fst (upto_first_halt env (enumerate 1 (task_plan self)))"
    and ss: "\<forall>r\<in>set new. success (result r) = exits_ok (step_process env (step_no r))"
    using monitored_steps_spec by blast
  let ?self' = "self\<lparr> execution_log := lg \<rparr>"
  let ?rep = "fst (generate_report ?self' (report_clock env) (file_clock env) new)"
  have run: "monitored_execute_plan m self env =
          Inr (?rep, ?self', fx' @ snd (generate_report ?self' (report_clock env) (file_clock env) new),
               conclude_plan m' ?rep)"
    using r by (simp add: monitored_execute_plan_def split: prod.splits)
  have st: "steps ?rep = new" by (simp add: generate_report_fields)
  have su: "summary ?rep = \<lparr> total_steps = length (task_plan self),
                      completed_steps = length (filter (\<lambda>r. success (result r)) new),
                      success_rate = rate_text (length (filter (\<lambda>r. success (result r)) new))
                                        (length (task_plan self)),
                      execution_time = report_clock env \<rparr>"
    by (simp add: generate_report_fields)
  show "\<exists>rep self' fx m'.
      monitored_execute_plan m self env = Inr (rep, self', fx, m') \<and>
      map step_no (steps rep) = map fst (upto_first_halt env (enumerate 1 (task_plan self))) \<and>
      (\<forall>r\<in>set (steps rep). success (result r) = exits_ok (step_process env (step_no r))) \<and>
      summary rep = \<lparr> total_steps = length (task_plan self),
                       completed_steps = length (filter (\<lambda>r. success (result r)) (steps rep)),
                       success_rate = rate_text (length (filter (\<lambda>r. success (result r)) (steps rep)))
                                         (length (task_plan self)),
                       execution_time = report_clock env \<rparr>"
    apply (rule exI[of _ ?rep], rule exI[of _ ?self'], intro exI)
    unfolding st su using run n ss by simp
next
  obtain new lg fx' m' where
    r: "monitored_steps_v2 env (enumerate 1 (task_plan self)) (announce_plan_v2 m2 self) self [] [] =
          Inr ([] @ new, self\<lparr> execution_log := lg \<rparr>, fx', m')"
    and n: "map step_no new = map fst (upto_first_halt env (enumerate 1 (task_plan self)))"
    and ss: "\<forall>r\<in>set new. success (result r) = exits_ok (step_process env (step_no r))"
    using monitored_steps_v2_spec by blast
  let ?self' = "self\<lparr> execution_log := lg \<rparr>"
  let ?rep = "fst (generate_report ?self' (report_clock env) (file_clock env) new)"
  have run: "monitored_execute_plan_v2 m2 self env =
          Inr (?rep, ?self', fx' @ snd (generate_report ?self' (report_clock env) (file_clock env) new),
               conclude_plan_v2 m' ?rep)"
    using r by (simp add: monitored_execute_plan_v2_def split: prod.splits)
  have st: "steps ?rep = new" by (simp add: generate_report_fields)
  have su: "summary ?rep = \<lparr> total_steps = length (task_plan self),
                      completed_steps = length (filter (\<lambda>r. success (result r)) new),
                      success_rate = rate_text (length (filter (\<lambda>r. success (result r)) new))
                                        (length (task_plan self)),
                      execution_time = report_clock env \<rparr>"
    by (simp add: generate_report_fields)
  show "\<exists>rep self' fx m'.
      monitored_execute_plan_v2 m2 self env = Inr (rep, self', fx, m') \<and>
      map step_no (steps rep) = map fst (upto_first_halt env (enumerate 1 (task_plan self))) \<and>
      (\<forall>r\<in>set (steps rep). success (result r) = exits_ok (step_process env (step_no r))) \<and>
      summary rep = \<lparr> total_steps = length (task_plan self),
                       completed_steps = length (filter (\<lambda>r. success (result r)) (steps rep)),
                       success_rate = rate_text (length (filter (\<lambda>r. success (result r)) (steps rep)))
                                         (length (task_plan self)),
                       execution_time = report_clock env \<rparr>"
    apply (rule exI[of _ ?rep], rule exI[of _ ?self'], intro exI)
    unfolding st su using run n ss by simp
qed

lemma rate_full: "rate_text (Suc (Suc 0)) (Suc (Suc 0)) = ''100.0%''"
  by code_simp

lemma all_succeed_count:
  assumes "\<forall>r\<in>set rs. success (result r) = exits_ok (Runs (Some 1) ''hi'' [] 0)"
  shows "length (filter (\<lambda>r. success (result r)) rs) = length rs"
proof -
  have "exits_ok (Runs (Some 1) ''hi'' [] 0)" by (simp add: exits_ok_Runs terminates_Runs)
  with assms have "filter (\<lambda>r. success (result r)) rs = rs" by (simp add: filter_id_conv)
  then show ?thesis by simp
qed

text \<open>
  C2 at the plan of two critical steps \<open>a\<close> (\<open>echo hi\<close>) and \<open>b\<close> (empty
  instruction), with subprocesses that exit with status zero. \<open>execute_plan\<close> skips
  \<open>b\<close> and reports one entry, one completed step of two, \<open>50.0%\<close>. Both wrappers have
  no test of the instruction: they run \<open>b\<close> with an empty instruction and report two
  entries, two completed steps of two, \<open>100.0%\<close>.
\<close>

theorem wrapper_runs_step_without_instruction:
  "(case execute_plan (fresh\<lparr> task_plan := [mk_step ''a'' ''echo hi'' True, mk_step ''b'' [] True] \<rparr>)
          (env_of (\<lambda>i. Runs (Some 1) ''hi'' [] 0)) of
      Inl e \<Rightarrow> False
    | Inr (rep, rest) \<Rightarrow>
        map step_no (steps rep) = [1] \<and> total_steps (summary rep) = 2 \<and>
        completed_steps (summary rep) = 1 \<and> success_rate (summary rep) = ''50.0%'') \<and>
   (case monitored_execute_plan (idle_monitor (\<lambda>k. k))
          (fresh\<lparr> task_plan := [mk_step ''a'' ''echo hi'' True, mk_step ''b'' [] True] \<rparr>)
          (env_of (\<lambda>i. Runs (Some 1) ''hi'' [] 0)) of
      Inl e \<Rightarrow> False
    | Inr (rep, rest) \<Rightarrow>
        map step_no (steps rep) = [1, 2] \<and> total_steps (summary rep) = 2 \<and>
        completed_steps (summary rep) = 2 \<and> success_rate (summary rep) = ''100.0%'') \<and>
   (case monitored_execute_plan_v2 (idle_monitor_v2 (\<lambda>k. k) (\<lambda>k. ''0.00s''))
          (fresh\<lparr> task_plan := [mk_step ''a'' ''echo hi'' True, mk_step ''b'' [] True] \<rparr>)
          (env_of (\<lambda>i. Runs (Some 1) ''hi'' [] 0)) of
      Inl e \<Rightarrow> False
    | Inr (rep, rest) \<Rightarrow>
        map step_no (steps rep) = [1, 2] \<and> total_steps (summary rep) = 2 \<and>
        completed_steps (summary rep) = 2 \<and> success_rate (summary rep) = ''100.0%'')"
proof (intro conjI)
  let ?S = "fresh\<lparr> task_plan := [mk_step ''a'' ''echo hi'' True, mk_step ''b'' [] True] \<rparr>"
  let ?E = "env_of (\<lambda>i. Runs (Some 1) ''hi'' [] 0)"
  have ok: "\<And>i. step_process ?E i = Runs (Some 1) ''hi'' [] 0" by (simp add: env_of_def)
  have u: "map fst (upto_first_halt ?E (enumerate 1 (task_plan ?S))) = [1, 2]"
    by (simp add: upto_first_halt_def halts_def env_of_def exits_ok_Runs terminates_Runs)
  have atm: "map fst (attempted ?E (enumerate 1 (task_plan ?S))) = [1]"
    by (simp add: attempted_def runnable_def mk_step_def dict_get_def)
  have l: "length (task_plan ?S) = Suc (Suc 0)" by simp
  {
    obtain rep self' fx where
      run: "execute_plan ?S ?E = Inr (rep, self', fx)"
      and n: "map step_no (steps rep) = map fst (attempted ?E (enumerate 1 (task_plan ?S)))"
      and ss: "\<forall>r\<in>set (steps rep). success (result r) = exits_ok (step_process ?E (step_no r))"
      and su: "summary rep = \<lparr> total_steps = length (task_plan ?S),
                       completed_steps = length (filter (\<lambda>r. success (result r)) (steps rep)),
                       success_rate = rate_text (length (filter (\<lambda>r. success (result r)) (steps rep)))
                                         (length (task_plan ?S)),
                       execution_time = report_clock ?E \<rparr>"
      using execute_plan_report[of ?S ?E] by blast
    have n1: "map step_no (steps rep) = [1]" using n atm by simp
    then have len: "length (steps rep) = Suc 0" by (metis length_map length_Cons list.size(3))
    have c: "length (filter (\<lambda>r. success (result r)) (steps rep)) = Suc 0"
      using all_succeed_count[of "steps rep"] ss len unfolding ok by simp
    have "map step_no (steps rep) = [1] \<and> total_steps (summary rep) = 2 \<and>
        completed_steps (summary rep) = 1 \<and> success_rate (summary rep) = ''50.0%''"
      unfolding su c l using n1 by (simp add: rate_half)
    then show "case execute_plan ?S ?E of
      Inl e \<Rightarrow> False
    | Inr (rep, rest) \<Rightarrow>
        map step_no (steps rep) = [1] \<and> total_steps (summary rep) = 2 \<and>
        completed_steps (summary rep) = 1 \<and> success_rate (summary rep) = ''50.0%''"
      unfolding run by simp
  }
  {
    obtain rep self' fx m' where
      run: "monitored_execute_plan (idle_monitor (\<lambda>k. k)) ?S ?E = Inr (rep, self', fx, m')"
      and n: "map step_no (steps rep) = map fst (upto_first_halt ?E (enumerate 1 (task_plan ?S)))"
      and ss: "\<forall>r\<in>set (steps rep). success (result r) = exits_ok (step_process ?E (step_no r))"
      and su: "summary rep = \<lparr> total_steps = length (task_plan ?S),
                       completed_steps = length (filter (\<lambda>r. success (result r)) (steps rep)),
                       success_rate = rate_text (length (filter (\<lambda>r. success (result r)) (steps rep)))
                                         (length (task_plan ?S)),
                       execution_time = report_clock ?E \<rparr>"
      using monitored_execute_plan_report[of "idle_monitor (\<lambda>k. k)" ?S ?E, THEN conjunct1] by blast
    have n1: "map step_no (steps rep) = [1, 2]" using n u by simp
    then have len: "length (steps rep) = Suc (Suc 0)" by (metis length_map length_Cons list.size(3))
    have c: "length (filter (\<lambda>r. success (result r)) (steps rep)) = Suc (Suc 0)"
      using all_succeed_count[of "steps rep"] ss len unfolding ok by simp
    have "map step_no (steps rep) = [1, 2] \<and> total_steps (summary rep) = 2 \<and>
        completed_steps (summary rep) = 2 \<and> success_rate (summary rep) = ''100.0%''"
      unfolding su c l using n1 by (simp add: rate_full)
    then show "case monitored_execute_plan (idle_monitor (\<lambda>k. k)) ?S ?E of
      Inl e \<Rightarrow> False
    | Inr (rep, rest) \<Rightarrow>
        map step_no (steps rep) = [1, 2] \<and> total_steps (summary rep) = 2 \<and>
        completed_steps (summary rep) = 2 \<and> success_rate (summary rep) = ''100.0%''"
      unfolding run by simp
  }
  {
    obtain rep self' fx m' where
      run: "monitored_execute_plan_v2 (idle_monitor_v2 (\<lambda>k. k) (\<lambda>k. ''0.00s'')) ?S ?E =
              Inr (rep, self', fx, m')"
      and n: "map step_no (steps rep) = map fst (upto_first_halt ?E (enumerate 1 (task_plan ?S)))"
      and ss: "\<forall>r\<in>set (steps rep). success (result r) = exits_ok (step_process ?E (step_no r))"
      and su: "summary rep = \<lparr> total_steps = length (task_plan ?S),
                       completed_steps = length (filter (\<lambda>r. success (result r)) (steps rep)),
                       success_rate = rate_text (length (filter (\<lambda>r. success (result r)) (steps rep)))
                                         (length (task_plan ?S)),
                       execution_time = report_clock ?E \<rparr>"
      using monitored_execute_plan_report[of _ ?S ?E "idle_monitor_v2 (\<lambda>k. k) (\<lambda>k. ''0.00s'')",
              THEN conjunct2] by blast
    have n1: "map step_no (steps rep) = [1, 2]" using n u by simp
    then have len: "length (steps rep) = Suc (Suc 0)" by (metis length_map length_Cons list.size(3))
    have c: "length (filter (\<lambda>r. success (result r)) (steps rep)) = Suc (Suc 0)"
      using all_succeed_count[of "steps rep"] ss len unfolding ok by simp
    have "map step_no (steps rep) = [1, 2] \<and> total_steps (summary rep) = 2 \<and>
        completed_steps (summary rep) = 2 \<and> success_rate (summary rep) = ''100.0%''"
      unfolding su c l using n1 by (simp add: rate_full)
    then show "case monitored_execute_plan_v2 (idle_monitor_v2 (\<lambda>k. k) (\<lambda>k. ''0.00s'')) ?S ?E of
      Inl e \<Rightarrow> False
    | Inr (rep, rest) \<Rightarrow>
        map step_no (steps rep) = [1, 2] \<and> total_steps (summary rep) = 2 \<and>
        completed_steps (summary rep) = 2 \<and> success_rate (summary rep) = ''100.0%''"
      unfolding run by simp
  }
qed


text \<open>On a plan in which no instruction is empty the three loops return the same results
  and leave the orchestrator in the same state, so the reports are the same.\<close>

lemma monitored_steps_agree:
  assumes "\<forall>x\<in>set ist. dict_get (instruction (snd x)) [] \<noteq> []"
  shows "\<exists>rs self' fx0' fxa' fxb' ma' mb'.
     execute_steps env ist self results fx0 = Inr (rs, self', fx0') \<and>
     monitored_steps env ist ma self results fxa = Inr (rs, self', fxa', ma') \<and>
     monitored_steps_v2 env ist mb self results fxb = Inr (rs, self', fxb', mb')"
  using assms
proof (induction ist arbitrary: self results fx0 fxa fxb ma mb)
  case Nil
  then show ?case by simp
next
  case (Cons a ist)
  obtain i st where a: "a = (i, st)" by (cases a)
  from Cons.prems a have ne: "dict_get (instruction st) [] \<noteq> []"
    and rest: "\<forall>x\<in>set ist. dict_get (instruction (snd x)) [] \<noteq> []" by simp_all
  obtain res self1 cfx where e: "execute_codex_command self (step_clock env i) (step_process env i)
        (dict_get (instruction st) []) (dict_get (step_context st) []) = Inr (res, self1, cfx)"
    using ecc_props by blast
  let ?entry = "\<lparr> step_no = i, step_description = dict_get (description st) [], result = res \<rparr>"
  let ?banner = "[Print Rule,
                  Print (StepBanner i (length (task_plan self)) (dict_get (description st) [])),
                  Print Rule]"
  obtain fa m1 where
    sa: "monitored_step env (i, st) ma self results fxa =
           Inr (\<not> success res \<and> dict_get (critical st) True, results @ [?entry], self1, fa, m1)"
    using monitored_step_of_command(1)[OF e] by blast
  obtain fb m2 where
    sb: "monitored_step_v2 env (i, st) mb self results fxb =
           Inr (\<not> success res \<and> dict_get (critical st) True, results @ [?entry], self1, fb, m2)"
    using monitored_step_of_command(2)[OF e] by blast
  show ?case
  proof (cases "\<not> success res \<and> dict_get (critical st) True")
    case True
    have "execute_steps env (a # ist) self results fx0 =
            Inr (results @ [?entry], self1, (fx0 @ ?banner @ cfx) @ [Print CriticalStop])"
      using ne e True by (simp add: a Let_def)
    moreover have "monitored_steps env (a # ist) ma self results fxa =
            Inr (results @ [?entry], self1, fa, m1)"
      using sa True by (simp add: a)
    moreover have "monitored_steps_v2 env (a # ist) mb self results fxb =
            Inr (results @ [?entry], self1, fb, m2)"
      using sb True by (simp add: a)
    ultimately show ?thesis by blast
  next
    case False
    let ?fx1 = "(fx0 @ ?banner @ cfx) @ (if i < length (task_plan self1) then [Sleep 2000] else [])"
    obtain rs self' fx0' fxa' fxb' ma' mb' where
      r0: "execute_steps env ist self1 (results @ [?entry]) ?fx1 = Inr (rs, self', fx0')"
      and ra: "monitored_steps env ist m1 self1 (results @ [?entry]) fa = Inr (rs, self', fxa', ma')"
      and rb: "monitored_steps_v2 env ist m2 self1 (results @ [?entry]) fb = Inr (rs, self', fxb', mb')"
      using Cons.IH[OF rest, of self1 "results @ [?entry]" ?fx1 m1 fa m2 fb] by blast
    have "execute_steps env (a # ist) self results fx0 = Inr (rs, self', fx0')"
      using ne e False r0 by (auto simp add: a Let_def)
    moreover have "monitored_step env (i, st) ma self results fxa =
            Inr (False, results @ [?entry], self1, fa, m1)"
      using sa False by simp
    then have "monitored_steps env (a # ist) ma self results fxa = Inr (rs, self', fxa', ma')"
      using ra by (simp add: a)
    moreover have "monitored_step_v2 env (i, st) mb self results fxb =
            Inr (False, results @ [?entry], self1, fb, m2)"
      using sb False by simp
    then have "monitored_steps_v2 env (a # ist) mb self results fxb = Inr (rs, self', fxb', mb')"
      using rb by (simp add: a)
    ultimately show ?thesis by blast
  qed
qed

lemma wrappers_agree_without_empty_instructions:
  assumes "\<forall>st\<in>set (task_plan self). dict_get (instruction st) [] \<noteq> []"
  shows "\<exists>rep self' fx fxa fxb ma' mb'.
     execute_plan self env = Inr (rep, self', fx) \<and>
     monitored_execute_plan ma self env = Inr (rep, self', fxa, ma') \<and>
     monitored_execute_plan_v2 mb self env = Inr (rep, self', fxb, mb')"
proof -
  have "\<forall>x\<in>set (enumerate 1 (task_plan self)). dict_get (instruction (snd x)) [] \<noteq> []"
  proof
    fix x assume "x \<in> set (enumerate 1 (task_plan self))"
    then have "snd x \<in> set (map snd (enumerate 1 (task_plan self)))" by (simp del: map_snd_enumerate)
    then have "snd x \<in> set (task_plan self)" by simp
    with assms show "dict_get (instruction (snd x)) [] \<noteq> []" by blast
  qed
  then obtain rs self' fx0' fxa' fxb' ma' mb' where
    r0: "execute_steps env (enumerate 1 (task_plan self)) self [] [] = Inr (rs, self', fx0')"
    and ra: "monitored_steps env (enumerate 1 (task_plan self)) (announce_plan ma) self [] [] =
               Inr (rs, self', fxa', ma')"
    and rb: "monitored_steps_v2 env (enumerate 1 (task_plan self)) (announce_plan_v2 mb self) self [] [] =
               Inr (rs, self', fxb', mb')"
    using monitored_steps_agree[of "enumerate 1 (task_plan self)" env self "[]" "[]"
            "announce_plan ma" "[]" "announce_plan_v2 mb self" "[]"]
    by blast
  show ?thesis
    unfolding execute_plan_def monitored_execute_plan_def monitored_execute_plan_v2_def r0 ra rb
    by (simp split: prod.splits)
qed

section \<open>The summary of a report\<close>

text \<open>Rounding to the nearest integer, to the nearest binary64 value and to tenths, with
  their errors.\<close>

lemma round_half_even_error_int:
  assumes "0 < b"
  shows "\<bar>2 * (round_half_even a b * b - a)\<bar> \<le> b"
proof -
  define q where "q = a div b"
  define r where "r = a mod b"
  have a: "a = q * b + r" by (simp add: q_def r_def)
  have r: "0 \<le> r" "r < b" using assms by (simp_all add: r_def)
  have "round_half_even a b = (if 2 * r < b then q else if b < 2 * r then q + 1
                               else if even q then q else q + 1)"
    by (simp add: round_half_even_def Let_def q_def r_def)
  then show ?thesis using r by (auto simp: a algebra_simps)
qed

lemma round_half_even_nonneg: "0 \<le> a \<Longrightarrow> 0 < b \<Longrightarrow> 0 \<le> round_half_even a b"
  by (auto simp: round_half_even_def Let_def pos_imp_zdiv_nonneg_iff intro: add_nonneg_nonneg)

lemma round_half_even_error:
  assumes "0 < b"
  shows "\<bar>real_of_int (round_half_even a b) - real_of_int a / real_of_int b\<bar> \<le> 1 / 2"
proof -
  let ?m = "round_half_even a b"
  have "real_of_int \<bar>2 * (?m * b - a)\<bar> \<le> real_of_int b"
    using round_half_even_error_int[OF assms, of a] by (simp only: of_int_le_iff)
  then have "\<bar>2 * (real_of_int ?m * real_of_int b - real_of_int a)\<bar> \<le> real_of_int b"
    by simp
  then have "2 * \<bar>real_of_int ?m * real_of_int b - real_of_int a\<bar> \<le> real_of_int b"
    by (simp only: abs_mult abs_numeral)
  moreover have "real_of_int ?m - real_of_int a / real_of_int b =
                 (real_of_int ?m * real_of_int b - real_of_int a) / real_of_int b"
    using assms by (simp add: field_simps)
  ultimately show ?thesis using assms by (simp add: abs_divide field_simps)
qed

lemma floor_log2_lower:
  assumes "0 < a" "0 < b"
  shows "2 powi (floor_log2 a b) \<le> real_of_int a / real_of_int b"
proof -
  let ?L = "bitlen a - bitlen b"
  have ba: "2 ^ nat (bitlen a - 1) \<le> a" and bb: "b < 2 ^ nat (bitlen b)"
    using bitlen_bounds[OF assms(1)] bitlen_bounds[OF assms(2)] by simp_all
  have pa: "1 \<le> bitlen a" and pb: "1 \<le> bitlen b"
    using assms by (simp_all add: bitlen_alt_def)
  show ?thesis
  proof (cases "if 0 \<le> ?L then b * 2 ^ nat ?L \<le> a else b \<le> a * 2 ^ nat (- ?L)")
    case True
    then have f: "floor_log2 a b = ?L" by (simp add: floor_log2_def Let_def)
    show ?thesis
    proof (cases "0 \<le> ?L")
      case pos: True
      with True have "b * 2 ^ nat ?L \<le> a" by simp
      then have "real_of_int b * 2 ^ nat ?L \<le> real_of_int a"
        by (metis of_int_le_iff of_int_mult of_int_numeral of_int_power)
      then show ?thesis using assms pos by (simp add: f power_int_nonneg_exp field_simps)
    next
      case neg: False
      define P where "P = (2::real) ^ nat (- ?L)"
      have P: "0 < P" by (simp add: P_def)
      from neg True have "b \<le> a * 2 ^ nat (- ?L)" by simp
      then have "real_of_int b \<le> real_of_int a * P"
        unfolding P_def by (metis of_int_le_iff of_int_mult of_int_numeral of_int_power)
      then have "1 / P \<le> real_of_int a / real_of_int b"
        using assms P by (simp add: field_simps)
      moreover have "(2::real) powi ?L = 1 / P"
        using neg by (simp add: power_int_def power_one_over P_def)
      ultimately show ?thesis by (simp add: f)
    qed
  next
    case False
    then have f: "floor_log2 a b = ?L - 1" by (simp add: floor_log2_def Let_def)
    have "real_of_int (2 ^ nat (bitlen a - 1)) \<le> real_of_int a" using ba by (simp only: of_int_le_iff)
    then have ra: "(2::real) powi (bitlen a - 1) \<le> real_of_int a"
      using pa by (simp add: power_int_nonneg_exp)
    have "real_of_int b < real_of_int (2 ^ nat (bitlen b))" using bb by (simp only: of_int_less_iff)
    then have rb: "real_of_int b < (2::real) powi (bitlen b)"
      using pb by (simp add: power_int_nonneg_exp)
    have "(2::real) powi (?L - 1) = 2 powi (bitlen a - 1) / 2 powi (bitlen b)"
      by (simp add: power_int_diff)
    also have "\<dots> \<le> real_of_int a / 2 powi (bitlen b)"
      using ra by (simp add: divide_right_mono)
    also have "\<dots> \<le> real_of_int a / real_of_int b"
      using rb assms by (simp add: frac_le)
    finally show ?thesis by (simp add: f)
  qed
qed

lemma round_to_double_error:
  assumes "0 < a" "0 < b"
  shows "0 \<le> fst (round_to_double a b)"
    and "\<bar>double_value (round_to_double a b) - real_of_int a / real_of_int b\<bar>
           \<le> max (real_of_int a / real_of_int b / 2 ^ 53) (1 / 2 ^ 1075)"
proof -
  define Q where "Q = real_of_int a / real_of_int b"
  define f where "f = floor_log2 a b"
  define e where "e = max (f - 52) (- 1074)"
  define m where "m = (if 0 \<le> e then round_half_even a (b * 2 ^ nat e)
                       else round_half_even (a * 2 ^ nat (- e)) b)"
  have r: "round_to_double a b = (m, e)"
    using assms by (simp add: round_to_double_def Let_def m_def e_def f_def)
  have m0: "0 \<le> m"
    using assms by (auto simp: m_def intro!: round_half_even_nonneg mult_pos_pos)
  show "0 \<le> fst (round_to_double a b)" using m0 by (simp add: r)
  have approx: "\<bar>real_of_int m - Q * 2 powi (- e)\<bar> \<le> 1 / 2"
  proof (cases "0 \<le> e")
    case True
    have "0 < b * 2 ^ nat e" using assms by simp
    from round_half_even_error[OF this, of a]
    have "\<bar>real_of_int m - real_of_int a / real_of_int (b * 2 ^ nat e)\<bar> \<le> 1 / 2"
      using True by (simp add: m_def)
    moreover have "real_of_int a / real_of_int (b * 2 ^ nat e) = Q * 2 powi (- e)"
      using True by (simp add: Q_def power_int_minus power_int_nonneg_exp field_simps)
    ultimately show ?thesis by simp
  next
    case False
    from round_half_even_error[OF assms(2), of "a * 2 ^ nat (- e)"]
    have "\<bar>real_of_int m - real_of_int (a * 2 ^ nat (- e)) / real_of_int b\<bar> \<le> 1 / 2"
      using False by (simp add: m_def)
    moreover have "real_of_int (a * 2 ^ nat (- e)) / real_of_int b = Q * 2 powi (- e)"
      using False by (simp add: Q_def power_int_nonneg_exp)
    ultimately show ?thesis by simp
  qed
  have p: "(0::real) < 2 powi e" by simp
  have "real_of_int m * 2 powi e - Q = 2 powi e * (real_of_int m - Q * 2 powi (- e))"
    by (simp add: power_int_minus field_simps)
  then have "\<bar>real_of_int m * 2 powi e - Q\<bar> = 2 powi e * \<bar>real_of_int m - Q * 2 powi (- e)\<bar>"
    using p by (simp add: abs_mult)
  also have "\<dots> \<le> 2 powi e * (1 / 2)"
    using approx p by (intro mult_left_mono) simp_all
  finally have err: "\<bar>real_of_int m * 2 powi e - Q\<bar> \<le> 2 powi e / 2" by simp
  have "2 powi e / 2 \<le> max (Q / 2 ^ 53) (1 / 2 ^ 1075)"
  proof (cases "- 1074 \<le> f - 52")
    case True
    then have e: "e = f - 52" by (simp add: e_def)
    have "(2::real) powi e / 2 = 2 powi f / 2 ^ 53"
      unfolding e by (simp add: power_int_diff)
    also have "\<dots> \<le> Q / 2 ^ 53"
      using floor_log2_lower[OF assms] by (simp add: f_def Q_def divide_right_mono)
    finally show ?thesis by simp
  next
    case False
    then have e: "e = - 1074" by (simp add: e_def)
    have "(2::real) powi e / 2 = 1 / 2 ^ 1075"
      unfolding e by (simp add: power_int_minus_divide)
    then show ?thesis by simp
  qed
  with err show "\<bar>double_value (round_to_double a b) - real_of_int a / real_of_int b\<bar>
           \<le> max (real_of_int a / real_of_int b / 2 ^ 53) (1 / 2 ^ 1075)"
    by (simp add: r double_value_def Q_def)
qed

lemma round_to_double_zero: "round_to_double 0 b = (0, 0)"
  by (simp add: round_to_double_def)

lemma float_mult_int_error:
  assumes "0 \<le> fst x" "0 < k"
  shows "0 \<le> fst (float_mult_int x k)"
    and "\<bar>double_value (float_mult_int x k) - double_value x * real_of_int k\<bar>
           \<le> max (double_value x * real_of_int k / 2 ^ 53) (1 / 2 ^ 1075)"
proof -
  obtain m e where x: "x = (m, e)" by (cases x)
  have both: "0 \<le> fst (float_mult_int x k) \<and>
    \<bar>double_value (float_mult_int x k) - double_value x * real_of_int k\<bar>
           \<le> max (double_value x * real_of_int k / 2 ^ 53) (1 / 2 ^ 1075)"
  proof (cases "m = 0")
    case True
    then show ?thesis
      by (simp add: x float_mult_int_def round_to_double_zero double_value_def)
  next
    case False
    with assms x have m: "0 < m" by simp
    show ?thesis
    proof (cases "0 \<le> e")
      case True
      have a: "0 < m * k * 2 ^ nat e" using m assms by simp
      have v: "real_of_int (m * k * 2 ^ nat e) / real_of_int 1 = double_value x * real_of_int k"
        using True by (simp add: x double_value_def power_int_nonneg_exp)
      have f: "float_mult_int x k = round_to_double (m * k * 2 ^ nat e) 1"
        using True by (simp add: x float_mult_int_def)
      show ?thesis
        unfolding f using round_to_double_error[OF a, of 1] unfolding v by simp
    next
      case False
      have a: "0 < m * k" using m assms by simp
      have b: "(0::int) < 2 ^ nat (- e)" by simp
      have "(2::real) powi e = 1 / 2 ^ nat (- e)"
        using False by (simp add: power_int_def power_one_over)
      then have v: "real_of_int (m * k) / real_of_int (2 ^ nat (- e)) = double_value x * real_of_int k"
        by (simp add: x double_value_def)
      have f: "float_mult_int x k = round_to_double (m * k) (2 ^ nat (- e))"
        using False by (simp add: x float_mult_int_def)
      show ?thesis
        unfolding f using round_to_double_error[OF a b] unfolding v by simp
    qed
  qed
  show "0 \<le> fst (float_mult_int x k)" using both by simp
  show "\<bar>double_value (float_mult_int x k) - double_value x * real_of_int k\<bar>
           \<le> max (double_value x * real_of_int k / 2 ^ 53) (1 / 2 ^ 1075)" using both by simp
qed

lemma tenths_error:
  assumes "0 \<le> fst y"
  shows "\<bar>real (tenths y) - 10 * double_value y\<bar> \<le> 1 / 2"
proof -
  obtain m e where y: "y = (m, e)" by (cases y)
  from assms y have m: "0 \<le> m" by simp
  show ?thesis
  proof (cases "0 \<le> e")
    case True
    have "0 \<le> 10 * m * 2 ^ nat e" using m by simp
    then have "real (nat (10 * m * 2 ^ nat e)) = real_of_int (10 * m * 2 ^ nat e)"
      by (simp only: of_nat_nat)
    then have "real (tenths y) = 10 * double_value y"
      using True by (simp add: y tenths_def double_value_def power_int_nonneg_exp)
    then show ?thesis by simp
  next
    case False
    let ?z = "round_half_even (10 * m) (2 ^ nat (- e))"
    have z0: "0 \<le> ?z" using m by (intro round_half_even_nonneg) simp_all
    have b: "(0::int) < 2 ^ nat (- e)" by simp
    have "(2::real) powi e = 1 / 2 ^ nat (- e)"
      using False by (simp add: power_int_def power_one_over)
    then have v: "real_of_int (10 * m) / real_of_int (2 ^ nat (- e)) = 10 * double_value y"
      by (simp add: y double_value_def)
    have "real (tenths y) = real_of_int ?z"
      using False z0 by (simp add: y tenths_def)
    then show ?thesis
      using round_half_even_error[OF b, of "10 * m"] unfolding v by simp
  qed
qed

lemma rate_accuracy:
  assumes "c \<le> N" "0 < N"
  shows "\<bar>real (tenths (float_mult_int (truediv c N) 100)) / 10 - 100 * real c / real N\<bar>
           \<le> 1 / 20 + 1 / 2 ^ 44"
proof -
  define Q where "Q = real c / real N"
  define x where "x = truediv c N"
  define y where "y = float_mult_int x 100"
  define u where "u = (1::real) / 2 ^ 53"
  have Q: "0 \<le> Q" "Q \<le> 1" using assms by (simp_all add: Q_def)
  have tiny: "(1::real) / 2 ^ 1075 \<le> u"
    unfolding u_def by (intro divide_left_mono power_increasing) simp_all
  have x0: "0 \<le> fst x" and xe: "\<bar>double_value x - Q\<bar> \<le> u"
  proof -
    show "0 \<le> fst x"
    proof (cases "c = 0")
      case True
      then show ?thesis by (simp add: x_def truediv_def round_to_double_zero)
    next
      case False
      then show ?thesis
        using round_to_double_error(1)[of "int c" "int N"] assms by (simp add: x_def truediv_def)
    qed
    show "\<bar>double_value x - Q\<bar> \<le> u"
    proof (cases "c = 0")
      case True
      then show ?thesis
        by (simp add: x_def truediv_def round_to_double_zero double_value_def Q_def u_def)
    next
      case False
      have "\<bar>double_value x - Q\<bar> \<le> max (Q / 2 ^ 53) (1 / 2 ^ 1075)"
        using round_to_double_error(2)[of "int c" "int N"] assms False
        by (simp add: x_def truediv_def Q_def)
      moreover have "Q / 2 ^ 53 \<le> u" using Q by (simp add: u_def divide_right_mono)
      ultimately show ?thesis using tiny by simp
    qed
  qed
  have u: "0 < u" "u \<le> 1" by (simp_all add: u_def)
  have xv: "0 \<le> double_value x" using x0 by (simp add: double_value_def)
  have xu: "double_value x \<le> 2" using xe Q u by (simp add: abs_le_iff)
  have y0: "0 \<le> fst y" using float_mult_int_error(1)[OF x0, of 100] by (simp add: y_def)
  have "\<bar>double_value y - double_value x * 100\<bar>
          \<le> max (double_value x * 100 / 2 ^ 53) (1 / 2 ^ 1075)"
    using float_mult_int_error(2)[OF x0, of 100] by (simp add: y_def)
  moreover have "double_value x * 100 / 2 ^ 53 \<le> 200 * u" using xu by (simp add: u_def)
  moreover have "(1::real) / 2 ^ 1075 \<le> 200 * u" using tiny u by linarith
  ultimately have ye: "\<bar>double_value y - double_value x * 100\<bar> \<le> 200 * u" by simp
  have ke: "\<bar>real (tenths y) - 10 * double_value y\<bar> \<le> 1 / 2"
    using tenths_error[OF y0] .
  have "\<bar>real (tenths y) / 10 - 100 * Q\<bar> \<le> 1 / 20 + 300 * u"
    using ke ye xe by linarith
  moreover have "300 * u \<le> 1 / 2 ^ 44" by (simp add: u_def)
  ultimately show ?thesis by (simp add: y_def x_def Q_def)
qed

lemma rate_text_shape:
  "0 < t \<Longrightarrow> rate_text c t =
     string_of_nat (tenths (float_mult_int (truediv c t) 100) div 10) @ ''.'' @
     [digit_char (tenths (float_mult_int (truediv c t) 100) mod 10)] @ ''%''"
  by (simp add: rate_text_def format_1f_def)

text \<open>
  C4, as the code has it. In the report of a run, \<open>completed_steps\<close> is the number of
  recorded results with \<open>success\<close>, which is at most the number of results, which is at
  most \<open>total_steps\<close>; \<open>total_steps\<close> is the length of the plan, whether or not the run
  stopped early. For an empty plan \<open>success_rate\<close> is the text \<open>0%\<close>. Otherwise it is a
  decimal number of tenths \<open>k\<close>, written with one digit after the point and a percent
  sign, and \<open>k / 10\<close> is the percentage \<open>100 * completed_steps / total_steps\<close> rounded
  to one digit: it is off by at most a twentieth, plus the error of the two float
  operations, which is below \<open>2 ^ - 44\<close>.
\<close>

theorem report_counts_and_rate:
  "\<exists>rep self' fx.
     execute_plan self env = Inr (rep, self', fx) \<and>
     completed_steps (summary rep) = length (filter (\<lambda>r. success (result r)) (steps rep)) \<and>
     total_steps (summary rep) = length (task_plan self) \<and>
     completed_steps (summary rep) \<le> length (steps rep) \<and>
     length (steps rep) \<le> total_steps (summary rep) \<and>
     (if total_steps (summary rep) = 0 then success_rate (summary rep) = ''0%''
      else \<exists>k. success_rate (summary rep) =
                  string_of_nat (k div 10) @ ''.'' @ [digit_char (k mod 10)] @ ''%'' \<and>
                \<bar>real k / 10 -
                 100 * real (completed_steps (summary rep)) / real (total_steps (summary rep))\<bar>
                  \<le> 1 / 20 + 1 / 2 ^ 44)"
proof -
  obtain rep self' fx where
    run: "execute_plan self env = Inr (rep, self', fx)"
    and nos: "map step_no (steps rep) = map fst (attempted env (enumerate 1 (task_plan self)))"
    and su: "summary rep = \<lparr> total_steps = length (task_plan self),
                      completed_steps = length (filter (\<lambda>r. success (result r)) (steps rep)),
                      success_rate = rate_text (length (filter (\<lambda>r. success (result r)) (steps rep)))
                                        (length (task_plan self)),
                      execution_time = report_clock env \<rparr>"
    using execute_plan_report by blast
  let ?c = "length (filter (\<lambda>r. success (result r)) (steps rep))"
  let ?N = "length (task_plan self)"
  have c: "completed_steps (summary rep) = ?c" and t: "total_steps (summary rep) = ?N"
    and sr: "success_rate (summary rep) = rate_text ?c ?N"
    by (simp_all add: su)
  have cl: "?c \<le> length (steps rep)" by simp
  have "length (steps rep) = length (map step_no (steps rep))" by simp
  also have "\<dots> = length (attempted env (enumerate 1 (task_plan self)))" by (simp add: nos)
  also have "\<dots> \<le> ?N" by (rule attempted_length)
  finally have ln: "length (steps rep) \<le> ?N" .
  have rate: "if ?N = 0 then rate_text ?c ?N = ''0%''
      else \<exists>k. rate_text ?c ?N =
                  string_of_nat (k div 10) @ ''.'' @ [digit_char (k mod 10)] @ ''%'' \<and>
                \<bar>real k / 10 - 100 * real ?c / real ?N\<bar> \<le> 1 / 20 + 1 / 2 ^ 44"
  proof (cases "?N = 0")
    case True
    then show ?thesis by (simp add: rate_text_def)
  next
    case False
    then have N: "0 < ?N" by simp
    from cl ln have cN: "?c \<le> ?N" by (rule order_trans)
    let ?k = "tenths (float_mult_int (truediv ?c ?N) 100)"
    have "rate_text ?c ?N = string_of_nat (?k div 10) @ ''.'' @ [digit_char (?k mod 10)] @ ''%''"
      using N by (rule rate_text_shape)
    moreover have "\<bar>real ?k / 10 - 100 * real ?c / real ?N\<bar> \<le> 1 / 20 + 1 / 2 ^ 44"
      using cN N by (rule rate_accuracy)
    ultimately have "\<exists>k. rate_text ?c ?N =
                  string_of_nat (k div 10) @ ''.'' @ [digit_char (k mod 10)] @ ''%'' \<and>
                \<bar>real k / 10 - 100 * real ?c / real ?N\<bar> \<le> 1 / 20 + 1 / 2 ^ 44"
      by blast
    with False show ?thesis by (simp only: if_False)
  qed
  show ?thesis
    apply (rule exI[of _ rep], rule exI[of _ self'], rule exI[of _ fx])
    unfolding c t sr using run cl ln rate by (intro conjI) (assumption | rule refl)+
qed

text \<open>
  C4 as stated fails at the empty plan: the rate is the text \<open>0%\<close>, with no fractional
  digit, where a zero rate formatted with one fractional digit is \<open>0.0%\<close>.
\<close>

theorem empty_plan_rate_has_no_fraction_digit:
  "(case execute_plan fresh (env_of (\<lambda>i. Runs (Some 1) [] [] 0)) of
      Inl e \<Rightarrow> False
    | Inr (rep, rest) \<Rightarrow>
        total_steps (summary rep) = 0 \<and> success_rate (summary rep) = ''0%'') \<and>
   ''0%'' \<noteq> ''0.0%''"
  by (simp add: execute_plan_def fresh_def init_orchestrator_def generate_report_def
        rate_text_def Let_def)

end
